theory Spec2Isabelle
  imports Complex_Main "HOL-Library.AList"
begin

section \<open>Criminal-check risk engine: the data model\<close>

text \<open>
  The development embeds \<^verbatim>\<open>engine_core/CriminalCheck.py\<close> (class
  \<^verbatim>\<open>CriminalCheckProcessor\<close>) and the method \<^verbatim>\<open>_calculate_overall_risk\<close> of
  \<^verbatim>\<open>engine_core/RuleCore.py\<close>. Python method names lose their leading underscore,
  which an Isabelle identifier cannot carry.

  Conventions of the embedding:
  \<^item> a JSON object with optional keys is a record of \<open>option\<close> fields
    (\<open>None\<close>: the key is absent), so that every \<^verbatim>\<open>.get(key, default)\<close> of the source
    is a \<open>case\<close> on the field;
  \<^item> an exception is a value \<open>Inl e\<close> of a sum type;
  \<^item> Python floats are exact rationals (\<open>rat\<close>), and \<^verbatim>\<open>round(x, 2)\<close> rounds the exact
    value half-to-even. With integer severity weights every product the scorer forms is a
    multiple of \<open>1/200\<close>, and it is an odd multiple only when both multipliers are among
    the binary fractions \<open>1.5\<close> and \<open>0.5\<close>, where the double product is exact; so below
    the magnitudes where a double loses the third decimal the two roundings agree;
  \<^item> strings are ASCII: \<^verbatim>\<open>str.lower\<close> maps \<open>A..Z\<close> to \<open>a..z\<close> and leaves every other
    character alone;
  \<^item> a \<^verbatim>\<open>datetime\<close> is the number of microseconds since 0001-01-01T00:00:00, and
    \<^verbatim>\<open>datetime.now()\<close> is an input of the model.
\<close>

datatype py_error = IndexError | KeyError | OverflowError

datatype RiskLevel = IGNORED | LOW | MEDIUM | HIGH | CLEAN

fun RiskLevel_value :: "RiskLevel \<Rightarrow> string" where
  "RiskLevel_value IGNORED = ''Ignored''"
| "RiskLevel_value LOW = ''Low''"
| "RiskLevel_value MEDIUM = ''Medium''"
| "RiskLevel_value HIGH = ''High''"
| "RiskLevel_value CLEAN = ''Clean''"

record ProcessedCase =
  case_number :: string
  charge_description :: string
  offense_date :: string
  charge_type :: string
  disposition :: string
  category :: string
  subcategory :: string
  risk_level :: RiskLevel
  risk_score :: rat
  reason :: string

subsection \<open>The input document\<close>

record disposition_entry =
  disposition_type :: "string option"

record charge =
  ch_offense_date :: "string option"
  ch_type :: "string option"
  ch_category :: "string option"
  ch_subcategory :: "string option"
  ch_description :: "string option"
  ch_dispositions :: "disposition_entry list option"

record case_entry =
  cs_case_number :: "string option"
  cs_charges :: "charge list option"

record result_entry =
  rs_category :: "string option"
  rs_cases :: "case_entry list option"

record document =
  doc_results :: "result_entry list option"

subsection \<open>The configuration\<close>

record category_rule =
  cat_category :: string
  cat_enabled :: bool

record charge_type_rule =
  ct_input_key :: string
  ct_enabled :: bool
  ct_severity_weight :: int

record disposition_rule =
  dp_input_key :: string
  dp_enabled :: bool
  dp_risk_impact :: string

record risk_category =
  rc_category :: string
  rc_base_weight :: rat

record thresholds =
  critical_risk_min :: rat
  high_risk_min :: rat
  medium_risk_min :: rat
  low_risk_min :: rat

record config =
  selected_period :: int
  record_categories :: "category_rule list"
  charge_classification_types :: "charge_type_rule list"
  disposition_filters :: "disposition_rule list"
  risk_scoring_categories :: "risk_category list"
  scoring_thresholds :: thresholds

type_synonym datetime = int

record processor =
  config :: config
  lookback_years :: int
  cutoff_date :: datetime

section \<open>Strings and dates of the Python runtime\<close>

definition lower_char :: "char \<Rightarrow> char" where
  "lower_char c =
     (let n = (of_char c :: nat) in if 65 \<le> n \<and> n \<le> 90 then char_of (n + 32) else c)"

definition lower :: "string \<Rightarrow> string" where
  "lower s = map lower_char s"

definition get_default :: "'a option \<Rightarrow> 'a \<Rightarrow> 'a" where
  "get_default v d = (case v of None \<Rightarrow> d | Some x \<Rightarrow> x)"

definition digit_char :: "nat \<Rightarrow> char" where
  "digit_char n = char_of (48 + n)"

fun str_nat :: "nat \<Rightarrow> string" where
  "str_nat n = (if n < 10 then [digit_char n] else str_nat (n div 10) @ [digit_char (n mod 10)])"

declare str_nat.simps [simp del]

definition str_int :: "int \<Rightarrow> string" where
  "str_int i = (if i < 0 then CHR ''-'' # str_nat (nat (- i)) else str_nat (nat i))"

definition us_per_day :: int where
  "us_per_day = 86400000000"

definition is_leap :: "int \<Rightarrow> bool" where
  "is_leap y \<longleftrightarrow> y mod 4 = 0 \<and> (y mod 100 \<noteq> 0 \<or> y mod 400 = 0)"

definition days_in_month :: "int \<Rightarrow> int \<Rightarrow> int" where
  "days_in_month y m =
     (if m = 2 then (if is_leap y then 29 else 28)
      else if m = 4 \<or> m = 6 \<or> m = 9 \<or> m = 11 then 30 else 31)"

definition days_before_year :: "int \<Rightarrow> int" where
  "days_before_year y = (y - 1) * 365 + (y - 1) div 4 - (y - 1) div 100 + (y - 1) div 400"

definition days_before_month :: "int \<Rightarrow> int \<Rightarrow> int" where
  "days_before_month y m = sum_list (map (days_in_month y) [1..m - 1])"

definition datetime_of_ymd :: "int \<Rightarrow> int \<Rightarrow> int \<Rightarrow> datetime" where
  "datetime_of_ymd y m d =
     (days_before_year y + days_before_month y m + d - 1) * us_per_day"

definition datetime_max :: datetime where
  "datetime_max = days_before_year 10000 * us_per_day - 1"

definition is_digit :: "char \<Rightarrow> bool" where
  "is_digit c \<longleftrightarrow> 48 \<le> (of_char c :: nat) \<and> (of_char c :: nat) \<le> 57"

definition digit_val :: "char \<Rightarrow> int" where
  "digit_val c = int (of_char c) - 48"

text \<open>
  \<^verbatim>\<open>datetime.strptime(s, "%Y%m%d")\<close> matches the regular expression
  \<^verbatim>\<open>\d\d\d\d(1[0-2]|0[1-9]|[1-9])(3[01]|[12]\d|0[1-9]|[1-9]| [1-9])\<close> at the start of
  \<open>s\<close>, takes the first match in backtracking order, and then raises
  \<^verbatim>\<open>ValueError\<close> if input remains, if the year is 0 or if the day does not exist in the
  month. \<open>match_month\<close> and \<open>match_day\<close> list the alternatives that match, in the
  order of the expression, each with the rest of the input.
\<close>

definition match_month :: "string \<Rightarrow> (int \<times> string) list" where
  "match_month s =
     (case s of
        a # b # r \<Rightarrow>
          (if a = CHR ''1'' \<and> is_digit b \<and> digit_val b \<le> 2 then [(10 + digit_val b, r)] else []) @
          (if a = CHR ''0'' \<and> is_digit b \<and> 1 \<le> digit_val b then [(digit_val b, r)] else [])
      | _ \<Rightarrow> []) @
     (case s of
        a # r \<Rightarrow> (if is_digit a \<and> 1 \<le> digit_val a then [(digit_val a, r)] else [])
      | [] \<Rightarrow> [])"

definition match_day :: "string \<Rightarrow> (int \<times> string) list" where
  "match_day s =
     (case s of
        a # b # r \<Rightarrow>
          (if a = CHR ''3'' \<and> is_digit b \<and> digit_val b \<le> 1 then [(30 + digit_val b, r)] else []) @
          (if (a = CHR ''1'' \<or> a = CHR ''2'') \<and> is_digit b
           then [(10 * digit_val a + digit_val b, r)] else []) @
          (if a = CHR ''0'' \<and> is_digit b \<and> 1 \<le> digit_val b then [(digit_val b, r)] else [])
      | _ \<Rightarrow> []) @
     (case s of
        a # r \<Rightarrow> (if is_digit a \<and> 1 \<le> digit_val a then [(digit_val a, r)] else [])
      | [] \<Rightarrow> []) @
     (case s of
        a # b # r \<Rightarrow>
          (if a = CHR '' '' \<and> is_digit b \<and> 1 \<le> digit_val b then [(digit_val b, r)] else [])
      | _ \<Rightarrow> [])"

definition parse_date :: "string \<Rightarrow> datetime option" where
  "parse_date date_str =
     (case date_str of
        y1 # y2 # y3 # y4 # rest \<Rightarrow>
          if is_digit y1 \<and> is_digit y2 \<and> is_digit y3 \<and> is_digit y4 then
            (case concat (map (\<lambda>(m, r). map (\<lambda>(d, r'). (m, d, r')) (match_day r))
                            (match_month rest)) of
               [] \<Rightarrow> None
             | (m, d, r') # _ \<Rightarrow>
                 (let y = 1000 * digit_val y1 + 100 * digit_val y2
                          + 10 * digit_val y3 + digit_val y4
                  in if r' \<noteq> [] \<or> y = 0 \<or> days_in_month y m < d then None
                     else Some (datetime_of_ymd y m d)))
          else None
      | _ \<Rightarrow> None)"

definition round_half_even :: "rat \<Rightarrow> int" where
  "round_half_even x =
     (let f = \<lfloor>x\<rfloor>; d = x - of_int f
      in if d < 1 / 2 then f else if 1 / 2 < d then f + 1 else if even f then f else f + 1)"

definition round2 :: "rat \<Rightarrow> rat" where
  "round2 x = of_int (round_half_even (x * 100)) / 100"

section \<open>The processor\<close>

definition init_processor :: "config \<Rightarrow> datetime \<Rightarrow> py_error + processor" where
  "init_processor cfg now =
     (let years = selected_period cfg; days = years * 365
      in if days < - 999999999 \<or> 999999999 < days then Inl OverflowError
         else let cutoff = now - days * us_per_day
              in if cutoff < 0 \<or> datetime_max < cutoff then Inl OverflowError
                 else Inr \<lparr>config = cfg, lookback_years = years, cutoff_date = cutoff\<rparr>)"

definition is_within_lookback :: "processor \<Rightarrow> string \<Rightarrow> bool" where
  "is_within_lookback p od =
     (case parse_date od of Some offense_dt \<Rightarrow> cutoff_date p \<le> offense_dt | None \<Rightarrow> False)"

definition is_record_category_enabled :: "processor \<Rightarrow> string \<Rightarrow> bool" where
  "is_record_category_enabled p cat =
     (case find (\<lambda>c. lower (cat_category c) = lower cat) (record_categories (config p)) of
        Some c \<Rightarrow> cat_enabled c
      | None \<Rightarrow> False)"

definition is_charge_type_enabled :: "processor \<Rightarrow> string \<Rightarrow> bool" where
  "is_charge_type_enabled p ctype =
     (case find (\<lambda>ct. lower (ct_input_key ct) = lower ctype)
             (charge_classification_types (config p)) of
        Some ct \<Rightarrow> ct_enabled ct
      | None \<Rightarrow> False)"

definition is_disposition_enabled :: "processor \<Rightarrow> string \<Rightarrow> bool" where
  "is_disposition_enabled p disp =
     (case find (\<lambda>d. lower (dp_input_key d) = lower disp) (disposition_filters (config p)) of
        Some d \<Rightarrow> dp_enabled d
      | None \<Rightarrow> False)"

definition get_risk_category_weight :: "processor \<Rightarrow> string \<Rightarrow> rat" where
  "get_risk_category_weight p cat =
     (case find (\<lambda>c. lower (rc_category c) = lower cat) (risk_scoring_categories (config p)) of
        Some c \<Rightarrow> rc_base_weight c
      | None \<Rightarrow> 1)"

definition get_charge_type_weight :: "processor \<Rightarrow> string \<Rightarrow> int" where
  "get_charge_type_weight p ctype =
     (case find (\<lambda>ct. lower (ct_input_key ct) = lower ctype)
             (charge_classification_types (config p)) of
        Some ct \<Rightarrow> ct_severity_weight ct
      | None \<Rightarrow> 1)"

definition get_disposition_risk_impact :: "processor \<Rightarrow> string \<Rightarrow> string" where
  "get_disposition_risk_impact p disp =
     (case find (\<lambda>d. lower (dp_input_key d) = lower disp) (disposition_filters (config p)) of
        Some d \<Rightarrow> dp_risk_impact d
      | None \<Rightarrow> ''low'')"

section \<open>Scoring\<close>

definition risk_mapping :: "((string \<times> string) \<times> string) list" where
  "risk_mapping =
     [((''vehicles & traffic'', ''license''), ''High''),
      ((''vehicles & traffic'', ''license & registration''), ''High''),
      ((''vehicles & traffic'', ''speeding''), ''Low''),
      ((''vehicles & traffic'', ''traffic violations''), ''Low''),
      ((''vehicles & traffic'', ''reckless driving''), ''Med''),
      ((''criminal intent'', ''accessory''), ''Low''),
      ((''criminal intent'', ''court orders''), ''Med''),
      ((''violence'', ''''), ''High''),
      ((''sexual'', ''''), ''High''),
      ((''homicide'', ''''), ''High''),
      ((''fraud & deception'', ''''), ''Med''),
      ((''drugs & alcohol'', ''''), ''Med''),
      ((''theft & property'', ''''), ''Med''),
      ((''security'', ''''), ''High''),
      ((''statutory'', ''''), ''Low''),
      ((''unclassified'', ''''), ''High'')]"

definition high_risk_categories :: "string list" where
  "high_risk_categories = [''violence'', ''sexual'', ''homicide'', ''security'', ''unclassified'']"

definition get_csv_risk_score :: "string \<Rightarrow> string \<Rightarrow> string" where
  "get_csv_risk_score cat subcat =
     (case map_of risk_mapping (lower cat, lower subcat) of
        Some t \<Rightarrow> t
      | None \<Rightarrow>
          (case map_of risk_mapping (lower cat, '''') of
             Some t \<Rightarrow> t
           | None \<Rightarrow> if lower cat \<in> set high_risk_categories then ''High'' else ''Med''))"

definition risk_base_scores :: "(string \<times> int) list" where
  "risk_base_scores = [(''High'', 30), (''Med'', 15), (''Low'', 5), (''Unscored'', 10)]"

definition impact_multipliers :: "(string \<times> rat) list" where
  "impact_multipliers = [(''high'', 3 / 2), (''medium'', 6 / 5), (''low'', 1), (''none'', 1 / 2)]"

text \<open>
  The expression
  \<^verbatim>\<open>charge.get("dispositions", [{}])[0].get("disposition_type", "unknown")\<close>, which
  \<^verbatim>\<open>_calculate_risk_score\<close> and \<^verbatim>\<open>_process_charge\<close> both evaluate. The default
  \<^verbatim>\<open>[{}]\<close> is used only when the key is absent; indexing a list that is present and
  empty raises \<^verbatim>\<open>IndexError\<close>.
\<close>

definition charge_disposition :: "charge \<Rightarrow> py_error + string" where
  "charge_disposition ch =
     (case get_default (ch_dispositions ch) [\<lparr>disposition_type = None\<rparr>] of
        [] \<Rightarrow> Inl IndexError
      | d # _ \<Rightarrow> Inr (get_default (disposition_type d) ''unknown''))"

definition recency_factor :: "rat \<Rightarrow> rat" where
  "recency_factor years_ago =
     (if years_ago \<le> 1 then 3 / 2
      else if years_ago \<le> 3 then 6 / 5
      else if years_ago \<le> 5 then 1
      else 4 / 5)"

text \<open>
  \<open>now\<close> is the value \<^verbatim>\<open>datetime.now()\<close> returns inside the \<^verbatim>\<open>try\<close> block; it is
  read only after the offense date has parsed. \<^verbatim>\<open>timedelta.days\<close> is the floor of the
  difference in days.
\<close>

definition calculate_risk_score ::
  "processor \<Rightarrow> datetime \<Rightarrow> charge \<Rightarrow> string \<Rightarrow> py_error + rat" where
  "calculate_risk_score p now ch od =
     (let cat = get_default (ch_category ch) ''Unclassified'';
          subcat = get_default (ch_subcategory ch) '''';
          csv_risk_level = get_csv_risk_score cat subcat;
          base_score0 = get_default (map_of risk_base_scores csv_risk_level) 15;
          base_score = (if lower cat = ''unclassified'' then 35 else base_score0);
          ctype = get_default (ch_type ch) ''unknown'';
          charge_weight = get_charge_type_weight p ctype
      in case charge_disposition ch of
           Inl e \<Rightarrow> Inl e
         | Inr disp \<Rightarrow>
             (let disposition_impact = get_disposition_risk_impact p disp;
                  disposition_multiplier =
                    get_default (map_of impact_multipliers disposition_impact) 1;
                  final_score =
                    of_int base_score * (of_int charge_weight / 2) * disposition_multiplier;
                  final_score' =
                    (case parse_date od of
                       Some offense_dt \<Rightarrow>
                         final_score *
                           recency_factor (of_int ((now - offense_dt) div us_per_day) / 365)
                     | None \<Rightarrow> final_score)
              in Inr (round2 final_score')))"

definition determine_risk_level :: "processor \<Rightarrow> rat \<Rightarrow> string \<Rightarrow> RiskLevel" where
  "determine_risk_level p score cat =
     (if lower cat = ''unclassified'' \<and> 0 < score then HIGH
      else let th = scoring_thresholds (config p)
           in if critical_risk_min th \<le> score then HIGH
              else if high_risk_min th \<le> score then HIGH
              else if medium_risk_min th \<le> score then MEDIUM
              else if low_risk_min th \<le> score then LOW
              else LOW)"

section \<open>Processing one charge\<close>

definition ignored_case ::
  "string \<Rightarrow> string \<Rightarrow> string \<Rightarrow> string \<Rightarrow> string \<Rightarrow> string \<Rightarrow> string \<Rightarrow> string
     \<Rightarrow> ProcessedCase" where
  "ignored_case case_no description od ctype disp cat subcat why =
     \<lparr>case_number = case_no, charge_description = description, offense_date = od,
      charge_type = ctype, disposition = disp, category = cat, subcategory = subcat,
      risk_level = IGNORED, risk_score = 0, reason = why\<rparr>"

definition process_charge ::
  "processor \<Rightarrow> datetime \<Rightarrow> charge \<Rightarrow> string \<Rightarrow> py_error + (ProcessedCase \<times> bool)" where
  "process_charge p now ch case_no =
     (let od = get_default (ch_offense_date ch) '''';
          ctype = get_default (ch_type ch) ''unknown'';
          cat = get_default (ch_category ch) ''unclassified'';
          subcat = get_default (ch_subcategory ch) '''';
          description = get_default (ch_description ch) ''''
      in case charge_disposition ch of
           Inl e \<Rightarrow> Inl e
         | Inr disp \<Rightarrow>
             if \<not> is_within_lookback p od then
               Inr (ignored_case case_no description od ctype disp cat subcat
                      (''Outside '' @ str_int (lookback_years p) @ ''-year lookback period''),
                    False)
             else if \<not> is_charge_type_enabled p ctype then
               Inr (ignored_case case_no description od ctype disp cat subcat
                      (''Charge type '' @ [CHR 0x27] @ ctype @ [CHR 0x27]
                         @ '' not enabled in configuration''),
                    False)
             else if \<not> is_disposition_enabled p disp then
               Inr (ignored_case case_no description od ctype disp cat subcat
                      (''Disposition '' @ [CHR 0x27] @ disp @ [CHR 0x27]
                         @ '' not enabled in configuration''),
                    False)
             else
               (case calculate_risk_score p now ch od of
                  Inl e \<Rightarrow> Inl e
                | Inr score \<Rightarrow>
                    Inr (\<lparr>case_number = case_no, charge_description = description,
                          offense_date = od, charge_type = ctype, disposition = disp,
                          category = cat, subcategory = subcat,
                          risk_level = determine_risk_level p score cat,
                          risk_score = score, reason = ''Processed successfully''\<rparr>,
                         True)))"

section \<open>The aggregator\<close>

text \<open>
  The result dictionary is an association list in insertion order. \<open>bucket_lookup\<close> is
  \<^verbatim>\<open>results[key]\<close> and \<open>bucket_append\<close> is \<^verbatim>\<open>results[key].append(pc)\<close>; both raise
  \<^verbatim>\<open>KeyError\<close> on a key that is not there.
\<close>

type_synonym buckets = "(string \<times> ProcessedCase list) list"

definition initial_results :: buckets where
  "initial_results =
     [(''Ignored'', []), (''Low'', []), (''Medium'', []), (''High'', []), (''Clean'', [])]"

definition five_keys :: "string list" where
  "five_keys = [''Ignored'', ''Low'', ''Medium'', ''High'', ''Clean'']"

definition bucket_lookup :: "buckets \<Rightarrow> string \<Rightarrow> py_error + ProcessedCase list" where
  "bucket_lookup res k = (case map_of res k of None \<Rightarrow> Inl KeyError | Some v \<Rightarrow> Inr v)"

definition bucket_append :: "buckets \<Rightarrow> string \<Rightarrow> ProcessedCase \<Rightarrow> py_error + buckets" where
  "bucket_append res k pc =
     (case map_of res k of
        None \<Rightarrow> Inl KeyError
      | Some v \<Rightarrow> Inr (AList.update k (v @ [pc]) res))"

definition na_case :: "string \<Rightarrow> string \<Rightarrow> ProcessedCase" where
  "na_case description why =
     \<lparr>case_number = ''N/A'', charge_description = description, offense_date = ''N/A'',
      charge_type = ''N/A'', disposition = ''N/A'', category = ''N/A'', subcategory = ''N/A'',
      risk_level = CLEAN, risk_score = 0, reason = why\<rparr>"

definition clean_no_history :: ProcessedCase where
  "clean_no_history = na_case ''No criminal records found'' ''No criminal history found''"

definition clean_no_qualifying :: ProcessedCase where
  "clean_no_qualifying =
     na_case ''No qualifying criminal records found'' ''No records meet the configured criteria''"

text \<open>
  The state of the three nested loops: the dictionary, the flag \<^verbatim>\<open>processed_any\<close>, and
  the number of charges handed to \<^verbatim>\<open>_process_charge\<close> so far. The last one is not a
  variable of the source: it indexes the clock, \<open>clock n\<close> being what
  \<^verbatim>\<open>datetime.now()\<close> returns while charge number \<open>n\<close> of the run is scored, so that
  the model does not assume a run to be instantaneous.
\<close>

record loop_state =
  results :: buckets
  processed_any :: bool
  charges_seen :: nat

fun process_charges ::
  "processor \<Rightarrow> (nat \<Rightarrow> datetime) \<Rightarrow> string \<Rightarrow> charge list \<Rightarrow> loop_state
     \<Rightarrow> py_error + loop_state" where
  "process_charges p clock case_no [] st = Inr st"
| "process_charges p clock case_no (ch # chs) st =
     (case process_charge p (clock (charges_seen st)) ch case_no of
        Inl e \<Rightarrow> Inl e
      | Inr (pc, should_include) \<Rightarrow>
          (case (if risk_level pc = IGNORED then bucket_append (results st) ''Ignored'' pc
                 else bucket_append (results st) (RiskLevel_value (risk_level pc)) pc) of
             Inl e \<Rightarrow> Inl e
           | Inr res \<Rightarrow>
               process_charges p clock case_no chs
                 \<lparr>results = res,
                  processed_any =
                    (processed_any st \<or> (risk_level pc \<noteq> IGNORED \<and> should_include)),
                  charges_seen = Suc (charges_seen st)\<rparr>))"

fun process_cases ::
  "processor \<Rightarrow> (nat \<Rightarrow> datetime) \<Rightarrow> case_entry list \<Rightarrow> loop_state \<Rightarrow> py_error + loop_state" where
  "process_cases p clock [] st = Inr st"
| "process_cases p clock (c # cs) st =
     (case process_charges p clock (get_default (cs_case_number c) ''unknown'')
             (get_default (cs_charges c) []) st of
        Inl e \<Rightarrow> Inl e
      | Inr st' \<Rightarrow> process_cases p clock cs st')"

fun process_results ::
  "processor \<Rightarrow> (nat \<Rightarrow> datetime) \<Rightarrow> result_entry list \<Rightarrow> loop_state \<Rightarrow> py_error + loop_state" where
  "process_results p clock [] st = Inr st"
| "process_results p clock (r # rs) st =
     (if \<not> is_record_category_enabled p (get_default (rs_category r) '''') then
        process_results p clock rs st
      else
        (case process_cases p clock (get_default (rs_cases r) []) st of
           Inl e \<Rightarrow> Inl e
         | Inr st' \<Rightarrow> process_results p clock rs st'))"

fun any_nonempty :: "buckets \<Rightarrow> string list \<Rightarrow> py_error + bool" where
  "any_nonempty res [] = Inr False"
| "any_nonempty res (k # ks) =
     (case bucket_lookup res k of
        Inl e \<Rightarrow> Inl e
      | Inr v \<Rightarrow> if v \<noteq> [] then Inr True else any_nonempty res ks)"

definition finish_results :: "loop_state \<Rightarrow> py_error + buckets" where
  "finish_results st =
     (if processed_any st then Inr (results st)
      else
        (case any_nonempty (results st) [''Low'', ''Medium'', ''High''] of
           Inl e \<Rightarrow> Inl e
         | Inr True \<Rightarrow> Inr (results st)
         | Inr False \<Rightarrow>
             (case bucket_lookup (results st) ''Ignored'' of
                Inl e \<Rightarrow> Inl e
              | Inr [] \<Rightarrow> bucket_append (results st) ''Clean'' clean_no_qualifying
              | Inr (_ # _) \<Rightarrow> Inr (results st))))"

definition process_criminal_check ::
  "processor \<Rightarrow> (nat \<Rightarrow> datetime) \<Rightarrow> document \<Rightarrow> py_error + buckets" where
  "process_criminal_check p clock data =
     (case doc_results data of
        None \<Rightarrow> bucket_append initial_results ''Clean'' clean_no_history
      | Some [] \<Rightarrow> bucket_append initial_results ''Clean'' clean_no_history
      | Some (r # rs) \<Rightarrow>
          (case process_results p clock (r # rs)
                  \<lparr>results = initial_results, processed_any = False, charges_seen = 0\<rparr> of
             Inl e \<Rightarrow> Inl e
           | Inr st \<Rightarrow> finish_results st))"

text \<open>
  The use the source makes of the class: construct the processor from a configuration at
  the instant \<open>now0\<close>, then process a document.
\<close>

definition check_with_config ::
  "config \<Rightarrow> datetime \<Rightarrow> (nat \<Rightarrow> datetime) \<Rightarrow> document \<Rightarrow> py_error + buckets" where
  "check_with_config cfg now0 clock data =
     (case init_processor cfg now0 of
        Inl e \<Rightarrow> Inl e
      | Inr p \<Rightarrow> process_criminal_check p clock data)"

section \<open>The orchestrator's overall risk\<close>

text \<open>\<open>dict_get_truthy m k\<close> is the truth value of \<^verbatim>\<open>m.get(k)\<close>: the key is there and
  its list is not empty.\<close>

definition dict_get_truthy :: "buckets \<Rightarrow> string \<Rightarrow> bool" where
  "dict_get_truthy m k = (case map_of m k of None \<Rightarrow> False | Some v \<Rightarrow> v \<noteq> [])"

definition calculate_overall_risk :: "buckets \<Rightarrow> RiskLevel" where
  "calculate_overall_risk processed_cases =
     (if dict_get_truthy processed_cases ''High'' then HIGH
      else if dict_get_truthy processed_cases ''Medium'' then MEDIUM
      else if dict_get_truthy processed_cases ''Low'' then LOW
      else if dict_get_truthy processed_cases ''Ignored''
              \<and> \<not> list_ex (dict_get_truthy processed_cases) [''High'', ''Medium'', ''Low'']
           then CLEAN
      else if dict_get_truthy processed_cases ''Clean'' then CLEAN
      else CLEAN)"

section \<open>The risk score, as the specification describes it\<close>

text \<open>
  The formula of the specification, factor by factor, on the fields a ProcessedCase
  carries: the tier looked up in the fixed table, the base score of the tier with the
  override for "unclassified", the configured severity weight, the multiplier of the
  configured disposition impact, and the recency multiplier of the age in days, a year
  being 365 days. A date that does not parse leaves the recency multiplier out.
\<close>

definition spec_tier :: "string \<Rightarrow> string \<Rightarrow> string" where
  "spec_tier cat subcat =
     (case map_of risk_mapping (lower cat, lower subcat) of
        Some t \<Rightarrow> t
      | None \<Rightarrow> (case map_of risk_mapping (lower cat, '''') of Some t \<Rightarrow> t | None \<Rightarrow> ''Med''))"

definition spec_base_score :: "string \<Rightarrow> string \<Rightarrow> int" where
  "spec_base_score cat subcat =
     (if lower cat = ''unclassified'' then 35
      else if spec_tier cat subcat = ''High'' then 30
      else if spec_tier cat subcat = ''Med'' then 15
      else if spec_tier cat subcat = ''Low'' then 5
      else 10)"

definition spec_severity_weight :: "config \<Rightarrow> string \<Rightarrow> int" where
  "spec_severity_weight cfg ctype =
     (case filter (\<lambda>ct. lower (ct_input_key ct) = lower ctype)
             (charge_classification_types cfg) of
        [] \<Rightarrow> 1
      | ct # _ \<Rightarrow> ct_severity_weight ct)"

definition spec_impact_multiplier :: "string \<Rightarrow> rat" where
  "spec_impact_multiplier impact =
     (if impact = ''high'' then 3 / 2
      else if impact = ''medium'' then 6 / 5
      else if impact = ''low'' then 1
      else if impact = ''none'' then 1 / 2
      else 1)"

definition spec_disposition_multiplier :: "config \<Rightarrow> string \<Rightarrow> rat" where
  "spec_disposition_multiplier cfg disp =
     (case filter (\<lambda>d. lower (dp_input_key d) = lower disp) (disposition_filters cfg) of
        [] \<Rightarrow> 1
      | d # _ \<Rightarrow> spec_impact_multiplier (dp_risk_impact d))"

definition spec_recency_multiplier :: "datetime \<Rightarrow> datetime \<Rightarrow> rat" where
  "spec_recency_multiplier now offense_dt =
     (let age_days = (now - offense_dt) div us_per_day
      in if age_days \<le> 365 then 3 / 2
         else if age_days \<le> 3 * 365 then 6 / 5
         else if age_days \<le> 5 * 365 then 1
         else 4 / 5)"

definition spec_risk_score ::
  "config \<Rightarrow> datetime \<Rightarrow> string \<Rightarrow> string \<Rightarrow> string \<Rightarrow> string \<Rightarrow> string \<Rightarrow> rat" where
  "spec_risk_score cfg now cat subcat ctype disp od =
     (let product = of_int (spec_base_score cat subcat)
                      * (of_int (spec_severity_weight cfg ctype) / 2)
                      * spec_disposition_multiplier cfg disp
      in case parse_date od of
           None \<Rightarrow> round2 product
         | Some offense_dt \<Rightarrow> round2 (product * spec_recency_multiplier now offense_dt))"

section \<open>Concrete inputs\<close>

text \<open>
  A configuration in the shape the processor reads, the instant 2023-06-01T12:00:00 as
  \<^verbatim>\<open>datetime.now()\<close>, and charges in the shape of the sample data of the source.
\<close>

definition fixed_clock :: "datetime \<Rightarrow> nat \<Rightarrow> datetime" where
  "fixed_clock t n = t"

definition example_config :: config where
  "example_config =
     \<lparr>selected_period = 7,
      record_categories =
        [\<lparr>cat_category = ''Criminal/traffic'', cat_enabled = True\<rparr>,
         \<lparr>cat_category = ''Civil'', cat_enabled = False\<rparr>],
      charge_classification_types =
        [\<lparr>ct_input_key = ''felony'', ct_enabled = True, ct_severity_weight = 4\<rparr>,
         \<lparr>ct_input_key = ''misdemeanor'', ct_enabled = True, ct_severity_weight = 2\<rparr>,
         \<lparr>ct_input_key = ''petty_offense'', ct_enabled = True, ct_severity_weight = 1\<rparr>,
         \<lparr>ct_input_key = ''infraction'', ct_enabled = False, ct_severity_weight = 1\<rparr>],
      disposition_filters =
        [\<lparr>dp_input_key = ''Conviction'', dp_enabled = True, dp_risk_impact = ''high''\<rparr>,
         \<lparr>dp_input_key = ''Pending'', dp_enabled = True, dp_risk_impact = ''medium''\<rparr>,
         \<lparr>dp_input_key = ''Dismissed'', dp_enabled = False, dp_risk_impact = ''none''\<rparr>],
      risk_scoring_categories =
        [\<lparr>rc_category = ''Vehicles & Traffic'', rc_base_weight = 2\<rparr>],
      scoring_thresholds =
        \<lparr>critical_risk_min = 80, high_risk_min = 50, medium_risk_min = 20,
         low_risk_min = 5\<rparr>\<rparr>"

definition example_now :: datetime where
  "example_now = datetime_of_ymd 2023 6 1 + 43200000000"

definition example_processor :: processor where
  "example_processor =
     \<lparr>config = example_config, lookback_years = 7,
      cutoff_date = example_now - 7 * 365 * us_per_day\<rparr>"

definition speeding_charge :: charge where
  "speeding_charge =
     \<lparr>ch_offense_date = Some ''20221201'', ch_type = Some ''petty_offense'',
      ch_category = Some ''Vehicles & Traffic'', ch_subcategory = Some ''Speeding'',
      ch_description = Some ''SPEED/70 INTERSTTE (REQUIRES SPEED)'',
      ch_dispositions = Some [\<lparr>disposition_type = Some ''Conviction''\<rparr>]\<rparr>"

section \<open>The aggregator, as the specification describes it\<close>

text \<open>
  The specification describes the aggregator as a pipeline: the charges of the enabled
  result groups, in document order, each with its case number; one ProcessedCase per
  charge; every ProcessedCase bucketed by its own level; a synthetic Clean entry when
  there is nothing else. These definitions follow that description, to be compared with
  the loops of the source.
\<close>

definition charges_of_result :: "result_entry \<Rightarrow> (string \<times> charge) list" where
  "charges_of_result r =
     concat (map (\<lambda>c. map (Pair (get_default (cs_case_number c) ''unknown''))
                          (get_default (cs_charges c) []))
                 (get_default (rs_cases r) []))"

definition all_charges :: "result_entry list \<Rightarrow> (string \<times> charge) list" where
  "all_charges rs = concat (map charges_of_result rs)"

definition enabled_charges :: "processor \<Rightarrow> result_entry list \<Rightarrow> (string \<times> charge) list" where
  "enabled_charges p rs =
     concat (map charges_of_result
               (filter (\<lambda>r. is_record_category_enabled p (get_default (rs_category r) '''')) rs))"

fun emitted_cases ::
  "processor \<Rightarrow> (nat \<Rightarrow> datetime) \<Rightarrow> nat \<Rightarrow> (string \<times> charge) list
     \<Rightarrow> py_error + ProcessedCase list" where
  "emitted_cases p clock n [] = Inr []"
| "emitted_cases p clock n ((case_no, ch) # xs) =
     (case process_charge p (clock n) ch case_no of
        Inl e \<Rightarrow> Inl e
      | Inr (pc, _) \<Rightarrow>
          (case emitted_cases p clock (Suc n) xs of
             Inl e \<Rightarrow> Inl e
           | Inr pcs \<Rightarrow> Inr (pc # pcs)))"

definition add_cases :: "buckets \<Rightarrow> ProcessedCase list \<Rightarrow> buckets" where
  "add_cases res pcs =
     map (\<lambda>(k, v). (k, v @ filter (\<lambda>pc. RiskLevel_value (risk_level pc) = k) pcs)) res"

definition spec_process ::
  "processor \<Rightarrow> (nat \<Rightarrow> datetime) \<Rightarrow> document \<Rightarrow> py_error + buckets" where
  "spec_process p clock data =
     (case doc_results data of
        None \<Rightarrow> Inr (add_cases initial_results [clean_no_history])
      | Some rs \<Rightarrow>
          if rs = [] then Inr (add_cases initial_results [clean_no_history])
          else
            (case emitted_cases p clock 0 (enabled_charges p rs) of
               Inl e \<Rightarrow> Inl e
             | Inr pcs \<Rightarrow>
                 Inr (add_cases initial_results
                        (if pcs = [] then [clean_no_qualifying] else pcs))))"

definition unknown_type_charge :: charge where
  "unknown_type_charge =
     \<lparr>ch_offense_date = Some ''20160623'', ch_type = Some ''unknown'',
      ch_category = Some ''unclassified'', ch_subcategory = None, ch_description = None,
      ch_dispositions = Some [\<lparr>disposition_type = Some ''Unclassified''\<rparr>]\<rparr>"

definition license_charge :: charge where
  "license_charge =
     \<lparr>ch_offense_date = Some ''20160623'', ch_type = Some ''misdemeanor'',
      ch_category = Some ''Vehicles & Traffic'',
      ch_subcategory = Some ''License & Registration'',
      ch_description = Some ''LICENSE; KNOWINGLY OPER VEH W- DL SUSP, CANCELLED, REVOKED'',
      ch_dispositions = Some [\<lparr>disposition_type = Some ''Pending''\<rparr>]\<rparr>"

definition example_results :: "result_entry list" where
  "example_results =
     [\<lparr>rs_category = Some ''Criminal/traffic'',
       rs_cases = Some [\<lparr>cs_case_number = Some ''16-2016-CT-009299-AXXX-MA'',
                         cs_charges = Some [unknown_type_charge]\<rparr>]\<rparr>,
      \<lparr>rs_category = Some ''Criminal/traffic'',
       rs_cases = Some [\<lparr>cs_case_number = Some ''2022TR030504 A'',
                         cs_charges = Some [speeding_charge]\<rparr>]\<rparr>,
      \<lparr>rs_category = Some ''Criminal/traffic'',
       rs_cases = Some [\<lparr>cs_case_number = Some ''16-2016-CT-009298-AXXX-MA'',
                         cs_charges = Some [license_charge]\<rparr>]\<rparr>]"

definition example_document :: document where
  "example_document = \<lparr>doc_results = Some example_results\<rparr>"

definition example_ignored :: ProcessedCase where
  "example_ignored =
     \<lparr>case_number = ''16-2016-CT-009299-AXXX-MA'', charge_description = '''',
      offense_date = ''20160623'', charge_type = ''unknown'', disposition = ''Unclassified'',
      category = ''unclassified'', subcategory = '''', risk_level = IGNORED, risk_score = 0,
      reason = ''Charge type '' @ [CHR 0x27] @ ''unknown'' @ [CHR 0x27]
                 @ '' not enabled in configuration''\<rparr>"

definition example_low :: ProcessedCase where
  "example_low =
     \<lparr>case_number = ''2022TR030504 A'',
      charge_description = ''SPEED/70 INTERSTTE (REQUIRES SPEED)'',
      offense_date = ''20221201'', charge_type = ''petty_offense'',
      disposition = ''Conviction'', category = ''Vehicles & Traffic'',
      subcategory = ''Speeding'', risk_level = LOW, risk_score = 281 / 50,
      reason = ''Processed successfully''\<rparr>"

definition example_medium :: ProcessedCase where
  "example_medium =
     \<lparr>case_number = ''16-2016-CT-009298-AXXX-MA'',
      charge_description = ''LICENSE; KNOWINGLY OPER VEH W- DL SUSP, CANCELLED, REVOKED'',
      offense_date = ''20160623'', charge_type = ''misdemeanor'', disposition = ''Pending'',
      category = ''Vehicles & Traffic'', subcategory = ''License & Registration'',
      risk_level = MEDIUM, risk_score = 144 / 5, reason = ''Processed successfully''\<rparr>"

definition example_buckets :: buckets where
  "example_buckets =
     [(''Ignored'', [example_ignored]), (''Low'', [example_low]),
      (''Medium'', [example_medium]), (''High'', []), (''Clean'', [])]"

definition ignored_only_document :: document where
  "ignored_only_document =
     \<lparr>doc_results =
        Some [\<lparr>rs_category = Some ''Criminal/traffic'',
               rs_cases = Some [\<lparr>cs_case_number = Some ''16-2016-CT-009299-AXXX-MA'',
                                 cs_charges = Some [unknown_type_charge]\<rparr>]\<rparr>]\<rparr>"

definition civil_results :: "result_entry list" where
  "civil_results =
     [\<lparr>rs_category = Some ''Civil'',
       rs_cases = Some [\<lparr>cs_case_number = Some ''CV-1'',
                         cs_charges = Some [speeding_charge]\<rparr>]\<rparr>]"

definition civil_document :: document where
  "civil_document = \<lparr>doc_results = Some civil_results\<rparr>"

definition ignored_only_buckets :: buckets where
  "ignored_only_buckets =
     [(''Ignored'', [example_ignored]), (''Low'', []), (''Medium'', []), (''High'', []),
      (''Clean'', [])]"

definition civil_buckets :: buckets where
  "civil_buckets =
     [(''Ignored'', []), (''Low'', []), (''Medium'', []), (''High'', []),
      (''Clean'', [clean_no_qualifying])]"

definition speeding_document :: document where
  "speeding_document =
     \<lparr>doc_results =
        Some [\<lparr>rs_category = Some ''Criminal/traffic'',
               rs_cases = Some [\<lparr>cs_case_number = Some ''2022TR030504 A'',
                                 cs_charges = Some [speeding_charge]\<rparr>]\<rparr>]\<rparr>"

text \<open>The example processor with a negative severity weight for petty offenses.\<close>

definition negative_weight_processor :: processor where
  "negative_weight_processor =
     example_processor
       \<lparr>config := example_config
          \<lparr>charge_classification_types :=
             [\<lparr>ct_input_key = ''petty_offense'', ct_enabled = True,
               ct_severity_weight = - 1\<rparr>]\<rparr>\<rparr>"

definition negative_low :: ProcessedCase where
  "negative_low = example_low\<lparr>risk_score := - (281 / 50)\<rparr>"

definition negative_buckets :: buckets where
  "negative_buckets =
     [(''Ignored'', []), (''Low'', [negative_low]), (''Medium'', []), (''High'', []),
      (''Clean'', [])]"

text \<open>A charge whose \<open>dispositions\<close> key is present with an empty list, once with a recent
  offense date and once with one before the cutoff date.\<close>

definition empty_dispositions_charge :: charge where
  "empty_dispositions_charge = speeding_charge\<lparr>ch_dispositions := Some []\<rparr>"

definition empty_dispositions_document :: document where
  "empty_dispositions_document =
     \<lparr>doc_results =
        Some [\<lparr>rs_category = Some ''Criminal/traffic'',
               rs_cases = Some [\<lparr>cs_case_number = Some ''2022TR030504 A'',
                                 cs_charges = Some [empty_dispositions_charge]\<rparr>]\<rparr>]\<rparr>"

definition stale_charge :: charge where
  "stale_charge =
     speeding_charge\<lparr>ch_offense_date := Some ''20100101'', ch_dispositions := Some []\<rparr>"









section \<open>Properties\<close>

subsection \<open>The risk classifier\<close>

text \<open>
  Claim C4. \<^verbatim>\<open>_determine_risk_level(score, category)\<close> returns High whenever the category
  is "unclassified" up to case and the score is positive, whatever the thresholds.
  Otherwise it compares the score with the configured thresholds in descending order:
  at least \<open>critical_risk.min\<close> gives High, at least \<open>high_risk.min\<close> gives High, at
  least \<open>medium_risk.min\<close> gives Medium, at least \<open>low_risk.min\<close> gives Low, and a score
  below \<open>low_risk.min\<close> gives Low as well.
\<close>

theorem determine_risk_level_thresholds:
  "(lower cat = ''unclassified'' \<and> 0 < score \<longrightarrow> determine_risk_level p score cat = HIGH) \<and>
   (\<not> (lower cat = ''unclassified'' \<and> 0 < score) \<longrightarrow>
      determine_risk_level p score cat =
        (if critical_risk_min (scoring_thresholds (config p)) \<le> score then HIGH
         else if high_risk_min (scoring_thresholds (config p)) \<le> score then HIGH
         else if medium_risk_min (scoring_thresholds (config p)) \<le> score then MEDIUM
         else if low_risk_min (scoring_thresholds (config p)) \<le> score then LOW
         else LOW))"
  by (simp add: determine_risk_level_def Let_def)

theorem determine_risk_level_thresholds_witness:
  "determine_risk_level example_processor (1 / 100) ''UnClassified'' = HIGH \<and>
   determine_risk_level example_processor 80 ''Violence'' = HIGH \<and>
   determine_risk_level example_processor 50 ''Violence'' = HIGH \<and>
   determine_risk_level example_processor 20 ''Violence'' = MEDIUM \<and>
   determine_risk_level example_processor 5 ''Violence'' = LOW \<and>
   determine_risk_level example_processor 0 ''unclassified'' = LOW"
proof -
  have u: "lower ''UnClassified'' = ''unclassified''" "lower ''unclassified'' = ''unclassified''"
    and v: "lower ''Violence'' \<noteq> ''unclassified''"
    by code_simp+
  have th: "scoring_thresholds (config example_processor) =
      \<lparr>critical_risk_min = 80, high_risk_min = 50, medium_risk_min = 20, low_risk_min = 5\<rparr>"
    by (simp add: example_processor_def example_config_def)
  show ?thesis
    using determine_risk_level_thresholds [of "''UnClassified''" "1 / 100" example_processor]
      determine_risk_level_thresholds [of "''Violence''" 80 example_processor]
      determine_risk_level_thresholds [of "''Violence''" 50 example_processor]
      determine_risk_level_thresholds [of "''Violence''" 20 example_processor]
      determine_risk_level_thresholds [of "''Violence''" 5 example_processor]
      determine_risk_level_thresholds [of "''unclassified''" 0 example_processor]
    by (simp add: u v th)
qed

subsection \<open>The overall risk\<close>

text \<open>
  Claim C5. For every bucket mapping, \<^verbatim>\<open>_calculate_overall_risk\<close> returns High if the
  High bucket is non-empty; otherwise Medium if the Medium bucket is non-empty; otherwise
  Low if the Low bucket is non-empty; otherwise Clean, whatever the Ignored and Clean
  buckets hold. A mapping with an empty High list, one Medium item and one Low item
  yields Medium.
\<close>

theorem calculate_overall_risk_priority:
  "(dict_get_truthy m ''High'' \<longrightarrow> calculate_overall_risk m = HIGH) \<and>
   (\<not> dict_get_truthy m ''High'' \<and> dict_get_truthy m ''Medium'' \<longrightarrow>
      calculate_overall_risk m = MEDIUM) \<and>
   (\<not> dict_get_truthy m ''High'' \<and> \<not> dict_get_truthy m ''Medium''
      \<and> dict_get_truthy m ''Low'' \<longrightarrow> calculate_overall_risk m = LOW) \<and>
   (\<not> dict_get_truthy m ''High'' \<and> \<not> dict_get_truthy m ''Medium''
      \<and> \<not> dict_get_truthy m ''Low'' \<longrightarrow> calculate_overall_risk m = CLEAN) \<and>
   calculate_overall_risk
     [(''High'', []), (''Medium'', [a]), (''Low'', [b]), (''Ignored'', []), (''Clean'', [])]
     = MEDIUM"
  by (simp add: calculate_overall_risk_def dict_get_truthy_def)

theorem calculate_overall_risk_priority_witness:
  "calculate_overall_risk [(''High'', [clean_no_history]), (''Medium'', [clean_no_history])] = HIGH \<and>
   calculate_overall_risk [(''Low'', [clean_no_history]), (''Medium'', [clean_no_history])] = MEDIUM \<and>
   calculate_overall_risk [(''Ignored'', [clean_no_history]), (''Low'', [clean_no_history])] = LOW \<and>
   calculate_overall_risk [(''Ignored'', [clean_no_history])] = CLEAN \<and>
   calculate_overall_risk [(''Clean'', [clean_no_history])] = CLEAN \<and>
   calculate_overall_risk [] = CLEAN"
  using calculate_overall_risk_priority
          [of "[(''High'', [clean_no_history]), (''Medium'', [clean_no_history])]"]
    calculate_overall_risk_priority
          [of "[(''Low'', [clean_no_history]), (''Medium'', [clean_no_history])]"]
    calculate_overall_risk_priority
          [of "[(''Ignored'', [clean_no_history]), (''Low'', [clean_no_history])]"]
    calculate_overall_risk_priority [of "[(''Ignored'', [clean_no_history])]"]
    calculate_overall_risk_priority [of "[(''Clean'', [clean_no_history])]"]
    calculate_overall_risk_priority [of "[]"]
  by (simp add: dict_get_truthy_def)

subsection \<open>The configured base weights are not read\<close>

text \<open>
  \<^verbatim>\<open>_get_risk_category_weight\<close> has no caller, so replacing the list
  \<open>risk_scoring.categories\<close> of the configuration changes nothing the processor computes.
\<close>

lemma reweigh_lookups:
  "is_within_lookback (p\<lparr>config := (config p)\<lparr>risk_scoring_categories := rs\<rparr>\<rparr>) od
     = is_within_lookback p od"
  "is_charge_type_enabled (p\<lparr>config := (config p)\<lparr>risk_scoring_categories := rs\<rparr>\<rparr>) t
     = is_charge_type_enabled p t"
  "is_disposition_enabled (p\<lparr>config := (config p)\<lparr>risk_scoring_categories := rs\<rparr>\<rparr>) d
     = is_disposition_enabled p d"
  "is_record_category_enabled (p\<lparr>config := (config p)\<lparr>risk_scoring_categories := rs\<rparr>\<rparr>) c
     = is_record_category_enabled p c"
  "get_charge_type_weight (p\<lparr>config := (config p)\<lparr>risk_scoring_categories := rs\<rparr>\<rparr>) t
     = get_charge_type_weight p t"
  "get_disposition_risk_impact (p\<lparr>config := (config p)\<lparr>risk_scoring_categories := rs\<rparr>\<rparr>) d
     = get_disposition_risk_impact p d"
  "determine_risk_level (p\<lparr>config := (config p)\<lparr>risk_scoring_categories := rs\<rparr>\<rparr>) s c
     = determine_risk_level p s c"
  "lookback_years (p\<lparr>config := (config p)\<lparr>risk_scoring_categories := rs\<rparr>\<rparr>)
     = lookback_years p"
  by (simp_all add: is_within_lookback_def is_charge_type_enabled_def
      is_disposition_enabled_def is_record_category_enabled_def get_charge_type_weight_def
      get_disposition_risk_impact_def determine_risk_level_def split: option.split)

lemma reweigh_calculate_risk_score:
  "calculate_risk_score (p\<lparr>config := (config p)\<lparr>risk_scoring_categories := rs\<rparr>\<rparr>) now ch od
     = calculate_risk_score p now ch od"
  unfolding calculate_risk_score_def reweigh_lookups by (rule refl)

lemma reweigh_process_charge:
  "process_charge (p\<lparr>config := (config p)\<lparr>risk_scoring_categories := rs\<rparr>\<rparr>) now ch cn
     = process_charge p now ch cn"
  unfolding process_charge_def reweigh_lookups reweigh_calculate_risk_score by (rule refl)

lemma reweigh_process_charges:
  "process_charges (p\<lparr>config := (config p)\<lparr>risk_scoring_categories := rs\<rparr>\<rparr>) clock cn chs st
     = process_charges p clock cn chs st"
  by (induction chs arbitrary: st) (simp_all add: reweigh_process_charge split: sum.split prod.split)

lemma reweigh_process_cases:
  "process_cases (p\<lparr>config := (config p)\<lparr>risk_scoring_categories := rs\<rparr>\<rparr>) clock cs st
     = process_cases p clock cs st"
  by (induction cs arbitrary: st) (simp_all add: reweigh_process_charges split: sum.split)

lemma reweigh_process_results:
  "process_results (p\<lparr>config := (config p)\<lparr>risk_scoring_categories := rs\<rparr>\<rparr>) clock rs' st
     = process_results p clock rs' st"
  by (induction rs' arbitrary: st)
     (simp_all add: reweigh_process_cases reweigh_lookups split: sum.split)

text \<open>
  Claim C8. The output of \<^verbatim>\<open>process_criminal_check\<close> (all buckets, levels, scores and
  reasons, and the error if it raises) does not depend on the \<open>risk_scoring.categories\<close>
  section of the configuration: two configurations that differ only there give the same
  result on every document, for a processor at hand and for one constructed from the
  configuration.
\<close>

theorem base_weight_independence:
  "process_criminal_check (p\<lparr>config := (config p)\<lparr>risk_scoring_categories := rs\<rparr>\<rparr>) clock data
     = process_criminal_check p clock data \<and>
   check_with_config (cfg\<lparr>risk_scoring_categories := rs\<rparr>) now0 clock data
     = check_with_config cfg now0 clock data"
proof
  show "process_criminal_check (p\<lparr>config := (config p)\<lparr>risk_scoring_categories := rs\<rparr>\<rparr>) clock data
     = process_criminal_check p clock data"
    unfolding process_criminal_check_def reweigh_process_results by (rule refl)
  have eq: "process_results
          \<lparr>config = cfg\<lparr>risk_scoring_categories := rs\<rparr>, lookback_years = y, cutoff_date = c\<rparr>
          clock rs' st
        = process_results \<lparr>config = cfg, lookback_years = y, cutoff_date = c\<rparr> clock rs' st"
    for y c rs' st
    using reweigh_process_results
      [where p = "\<lparr>config = cfg, lookback_years = y, cutoff_date = c\<rparr>" and rs = rs]
    by simp
  have "process_criminal_check
          \<lparr>config = cfg\<lparr>risk_scoring_categories := rs\<rparr>, lookback_years = y, cutoff_date = c\<rparr>
          clock data
        = process_criminal_check \<lparr>config = cfg, lookback_years = y, cutoff_date = c\<rparr> clock data"
    for y c
    unfolding process_criminal_check_def eq by (rule refl)
  then show "check_with_config (cfg\<lparr>risk_scoring_categories := rs\<rparr>) now0 clock data
     = check_with_config cfg now0 clock data"
    by (simp add: check_with_config_def init_processor_def Let_def)
qed

subsection \<open>The loops compute the pipeline\<close>

text \<open>
  The three nested loops of \<^verbatim>\<open>process_criminal_check\<close>, with their early exits, return
  what \<open>spec_process\<close> describes: an append to the bucket of a level never fails,
  because the dictionary keeps its five keys, and the flag \<^verbatim>\<open>processed_any\<close> is set
  exactly when a ProcessedCase other than Ignored exists.
\<close>

lemma bucket_append_map:
  "map_of res k = Some v \<Longrightarrow> distinct (map fst res) \<Longrightarrow>
   bucket_append res k pc = Inr (map (\<lambda>(k', v'). (k', if k' = k then v' @ [pc] else v')) res)"
proof -
  assume v: "map_of res k = Some v" and d: "distinct (map fst res)"
  have "AList.update k (v @ [pc]) res
      = map (\<lambda>(k', v'). (k', if k' = k then v' @ [pc] else v')) res"
    using v d
  proof (induction res)
    case Nil
    then show ?case by simp
  next
    case (Cons a res)
    obtain k' v' where a: "a = (k', v')" by (cases a)
    show ?case
    proof (cases "k' = k")
      case True
      with Cons.prems a have "v' = v" and "k \<notin> fst ` set res" by auto
      then have "map (\<lambda>(k', v'). (k', if k' = k then v' @ [pc] else v')) res = res"
        by (induction res) (auto split: prod.splits)
      with True a \<open>v' = v\<close> show ?thesis by simp
    next
      case False
      with Cons a show ?thesis by simp
    qed
  qed
  with v show ?thesis by (simp add: bucket_append_def)
qed

lemma add_cases_keys [simp]: "map fst (add_cases res pcs) = map fst res"
  by (simp add: add_cases_def comp_def case_prod_unfold)

lemma add_cases_Nil [simp]: "add_cases res [] = res"
  by (simp add: add_cases_def)

lemma add_cases_append: "add_cases (add_cases res xs) ys = add_cases res (xs @ ys)"
  by (simp add: add_cases_def comp_def case_prod_unfold)

lemma map_of_add_cases:
  "map_of (add_cases res pcs) k =
     map_option (\<lambda>v. v @ filter (\<lambda>pc. RiskLevel_value (risk_level pc) = k) pcs) (map_of res k)"
  by (induction res) (auto simp: add_cases_def)

lemma bucket_append_own_level:
  assumes "distinct (map fst res)" and "RiskLevel_value (risk_level pc) \<in> fst ` set res"
  shows "bucket_append res (RiskLevel_value (risk_level pc)) pc = Inr (add_cases res [pc])"
proof -
  from assms(2) obtain v where "map_of res (RiskLevel_value (risk_level pc)) = Some v"
    by (metis domD dom_map_of_conv_image_fst)
  from bucket_append_map [OF this assms(1), of pc] show ?thesis
    by (auto simp: add_cases_def)
qed


lemma determine_risk_level_range:
  "determine_risk_level p score cat \<in> {HIGH, MEDIUM, LOW}"
  by (simp add: determine_risk_level_def Let_def)

lemma process_charge_Inr_iff:
  "(\<exists>r. process_charge p now ch cn = Inr r) \<longleftrightarrow> (\<exists>d. charge_disposition ch = Inr d)"
  by (auto simp: process_charge_def calculate_risk_score_def Let_def split: sum.splits)

lemma process_charge_level:
  assumes "process_charge p now ch cn = Inr (pc, b)"
  shows "b \<longleftrightarrow> risk_level pc \<noteq> IGNORED" and "risk_level pc \<noteq> CLEAN"
proof -
  have "determine_risk_level p s c \<noteq> IGNORED" "determine_risk_level p s c \<noteq> CLEAN" for s c
    using determine_risk_level_range [of p s c] by auto
  with assms show "b \<longleftrightarrow> risk_level pc \<noteq> IGNORED" and "risk_level pc \<noteq> CLEAN"
    by (auto simp: process_charge_def ignored_case_def Let_def split: sum.splits if_splits)
qed

lemma RiskLevel_value_five: "RiskLevel_value l \<in> set five_keys"
  by (cases l) (simp_all add: five_keys_def)

lemma RiskLevel_value_inj: "RiskLevel_value a = RiskLevel_value b \<longleftrightarrow> a = b"
  by (cases a; cases b) simp_all

lemma five_keys_distinct: "distinct five_keys"
  by (simp add: five_keys_def)

lemma process_charges_refines:
  assumes "map fst (results st) = five_keys"
  shows "process_charges p clock cn chs st =
     (case emitted_cases p clock (charges_seen st) (map (Pair cn) chs) of
        Inl e \<Rightarrow> Inl e
      | Inr pcs \<Rightarrow>
          Inr \<lparr>results = add_cases (results st) pcs,
               processed_any = (processed_any st \<or> list_ex (\<lambda>pc. risk_level pc \<noteq> IGNORED) pcs),
               charges_seen = charges_seen st + length chs\<rparr>)"
  using assms
proof (induction chs arbitrary: st)
  case Nil
  then show ?case by simp
next
  case (Cons ch chs)
  show ?case
  proof (cases "process_charge p (clock (charges_seen st)) ch cn")
    case (Inl e)
    then show ?thesis by simp
  next
    case (Inr r)
    obtain pc b where r: "r = (pc, b)" by (cases r)
    from Inr r have b: "b \<longleftrightarrow> risk_level pc \<noteq> IGNORED"
      using process_charge_level(1) by blast
    have keys: "distinct (map fst (results st))"
      "RiskLevel_value (risk_level pc) \<in> fst ` set (results st)"
      using Cons.prems five_keys_distinct RiskLevel_value_five [of "risk_level pc"]
      by (simp_all flip: set_map)
    have app: "(if risk_level pc = IGNORED then bucket_append (results st) ''Ignored'' pc
           else bucket_append (results st) (RiskLevel_value (risk_level pc)) pc)
          = Inr (add_cases (results st) [pc])"
      using bucket_append_own_level [OF keys] by (cases "risk_level pc = IGNORED") auto
    let ?st = "\<lparr>results = add_cases (results st) [pc],
                processed_any = (processed_any st \<or> (risk_level pc \<noteq> IGNORED \<and> b)),
                charges_seen = Suc (charges_seen st)\<rparr>"
    have "map fst (results ?st) = five_keys" using Cons.prems by simp
    from Cons.IH [OF this] Inr r app b show ?thesis
      by (auto simp: add_cases_append split: sum.splits)
  qed
qed

lemma emitted_cases_append:
  "emitted_cases p clock n (xs @ ys) =
     (case emitted_cases p clock n xs of
        Inl e \<Rightarrow> Inl e
      | Inr a \<Rightarrow>
          (case emitted_cases p clock (n + length xs) ys of
             Inl e \<Rightarrow> Inl e
           | Inr b \<Rightarrow> Inr (a @ b)))"
  by (induction xs arbitrary: n) (auto split: sum.splits prod.splits)


lemma emitted_cases_length:
  "emitted_cases p clock n xs = Inr pcs \<Longrightarrow> length pcs = length xs"
  by (induction xs arbitrary: n pcs) (auto split: sum.splits prod.splits)

lemma process_cases_refines:
  assumes "map fst (results st) = five_keys"
  shows "process_cases p clock cs st =
     (case emitted_cases p clock (charges_seen st)
             (charges_of_result \<lparr>rs_category = c, rs_cases = Some cs\<rparr>) of
        Inl e \<Rightarrow> Inl e
      | Inr pcs \<Rightarrow>
          Inr \<lparr>results = add_cases (results st) pcs,
               processed_any = (processed_any st \<or> list_ex (\<lambda>pc. risk_level pc \<noteq> IGNORED) pcs),
               charges_seen = charges_seen st + length pcs\<rparr>)"
  using assms
proof (induction cs arbitrary: st)
  case Nil
  then show ?case by (simp add: charges_of_result_def get_default_def)
next
  case (Cons a cs)
  let ?xs = "map (Pair (get_default (cs_case_number a) ''unknown'')) (get_default (cs_charges a) [])"
  have split: "charges_of_result \<lparr>rs_category = c, rs_cases = Some (a # cs)\<rparr>
      = ?xs @ charges_of_result \<lparr>rs_category = c, rs_cases = Some cs\<rparr>"
    by (simp add: charges_of_result_def get_default_def)
  show ?case
  proof (cases "emitted_cases p clock (charges_seen st) ?xs")
    case (Inl e)
    then show ?thesis
      by (simp add: split emitted_cases_append process_charges_refines [OF Cons.prems])
  next
    case (Inr pcs)
    let ?st = "\<lparr>results = add_cases (results st) pcs,
                processed_any = (processed_any st \<or> list_ex (\<lambda>pc. risk_level pc \<noteq> IGNORED) pcs),
                charges_seen = charges_seen st + length (get_default (cs_charges a) [])\<rparr>"
    have len: "length pcs = length (get_default (cs_charges a) [])"
      using emitted_cases_length [OF Inr] by simp
    have "map fst (results ?st) = five_keys" using Cons.prems by simp
    from Cons.IH [OF this] Inr len show ?thesis
      by (auto simp: split emitted_cases_append process_charges_refines [OF Cons.prems]
            add_cases_append split: sum.splits)
  qed
qed

lemma process_results_refines:
  assumes "map fst (results st) = five_keys"
  shows "process_results p clock rs st =
     (case emitted_cases p clock (charges_seen st) (enabled_charges p rs) of
        Inl e \<Rightarrow> Inl e
      | Inr pcs \<Rightarrow>
          Inr \<lparr>results = add_cases (results st) pcs,
               processed_any = (processed_any st \<or> list_ex (\<lambda>pc. risk_level pc \<noteq> IGNORED) pcs),
               charges_seen = charges_seen st + length pcs\<rparr>)"
  using assms
proof (induction rs arbitrary: st)
  case Nil
  then show ?case by (simp add: enabled_charges_def)
next
  case (Cons r rs)
  show ?case
  proof (cases "is_record_category_enabled p (get_default (rs_category r) [])")
    case False
    with Cons show ?thesis by (simp add: enabled_charges_def)
  next
    case True
    have cr: "charges_of_result r
        = charges_of_result \<lparr>rs_category = rs_category r, rs_cases = Some (get_default (rs_cases r) [])\<rparr>"
      by (simp add: charges_of_result_def get_default_def)
    have split: "enabled_charges p (r # rs) = charges_of_result r @ enabled_charges p rs"
      using True by (simp add: enabled_charges_def)
    note pc = process_cases_refines [OF Cons.prems, of p clock "get_default (rs_cases r) []" "rs_category r",
        folded cr]
    show ?thesis
    proof (cases "emitted_cases p clock (charges_seen st) (charges_of_result r)")
      case (Inl e)
      with True show ?thesis by (simp add: split emitted_cases_append pc)
    next
      case (Inr pcs)
      let ?st = "\<lparr>results = add_cases (results st) pcs,
                  processed_any = (processed_any st \<or> list_ex (\<lambda>pc. risk_level pc \<noteq> IGNORED) pcs),
                  charges_seen = charges_seen st + length pcs\<rparr>"
      have len: "length pcs = length (charges_of_result r)"
        using emitted_cases_length [OF Inr] .
      have "map fst (results ?st) = five_keys" using Cons.prems by simp
      from Cons.IH [OF this] Inr len True show ?thesis
        by (auto simp: split emitted_cases_append pc add_cases_append split: sum.splits)
    qed
  qed
qed


lemma initial_results_keys: "map fst initial_results = five_keys"
  by (simp add: initial_results_def five_keys_def)

lemma add_cases_initial:
  "add_cases initial_results pcs =
     [(''Ignored'', filter (\<lambda>pc. risk_level pc = IGNORED) pcs),
      (''Low'', filter (\<lambda>pc. risk_level pc = LOW) pcs),
      (''Medium'', filter (\<lambda>pc. risk_level pc = MEDIUM) pcs),
      (''High'', filter (\<lambda>pc. risk_level pc = HIGH) pcs),
      (''Clean'', filter (\<lambda>pc. risk_level pc = CLEAN) pcs)]"
proof -
  have "RiskLevel_value l = k \<longleftrightarrow>
      (k = ''Ignored'' \<and> l = IGNORED) \<or> (k = ''Low'' \<and> l = LOW) \<or> (k = ''Medium'' \<and> l = MEDIUM)
      \<or> (k = ''High'' \<and> l = HIGH) \<or> (k = ''Clean'' \<and> l = CLEAN)" for l k
    by (cases l) auto
  then show ?thesis by (simp add: add_cases_def initial_results_def)
qed

lemma filter_all_ignored:
  "\<not> list_ex (\<lambda>pc. risk_level pc \<noteq> IGNORED) pcs \<Longrightarrow>
   filter (\<lambda>pc. risk_level pc = l) pcs = (if l = IGNORED then pcs else [])"
  by (induction pcs) (auto)

lemma finish_results_refines:
  "finish_results \<lparr>results = add_cases initial_results pcs,
                   processed_any = list_ex (\<lambda>pc. risk_level pc \<noteq> IGNORED) pcs,
                   charges_seen = n\<rparr>
     = Inr (add_cases initial_results (if pcs = [] then [clean_no_qualifying] else pcs))"
proof (cases "list_ex (\<lambda>pc. risk_level pc \<noteq> IGNORED) pcs")
  case True
  then have "pcs \<noteq> []" by auto
  with True show ?thesis by (simp add: finish_results_def)
next
  case False
  note f = filter_all_ignored [OF False]
  have any: "any_nonempty (add_cases initial_results pcs) [''Low'', ''Medium'', ''High''] = Inr False"
    by (simp add: add_cases_initial bucket_lookup_def f)
  have ign: "bucket_lookup (add_cases initial_results pcs) ''Ignored'' = Inr pcs"
    by (simp add: add_cases_initial bucket_lookup_def f)
  show ?thesis
  proof (cases pcs)
    case Nil
    have "bucket_append initial_results ''Clean'' clean_no_qualifying
        = Inr (add_cases initial_results [clean_no_qualifying])"
      by (simp add: add_cases_def bucket_append_def initial_results_def
          clean_no_qualifying_def na_case_def)
    with False any ign Nil show ?thesis by (simp add: finish_results_def)
  next
    case (Cons a list)
    with False any ign show ?thesis by (simp add: finish_results_def)
  qed
qed

lemma process_criminal_check_refines:
  "process_criminal_check p clock data = spec_process p clock data"
proof -
  have clean: "bucket_append initial_results ''Clean'' clean_no_history
      = Inr (add_cases initial_results [clean_no_history])"
    by (simp add: add_cases_def bucket_append_def initial_results_def
        clean_no_history_def na_case_def)
  let ?st = "\<lparr>results = initial_results, processed_any = False, charges_seen = 0\<rparr>"
  have loop: "process_results p clock rs ?st =
     (case emitted_cases p clock 0 (enabled_charges p rs) of
        Inl e \<Rightarrow> Inl e
      | Inr pcs \<Rightarrow>
          Inr \<lparr>results = add_cases initial_results pcs,
               processed_any = list_ex (\<lambda>pc. risk_level pc \<noteq> IGNORED) pcs,
               charges_seen = length pcs\<rparr>)" for rs
    using process_results_refines [of ?st p clock rs]
    by (simp add: initial_results_keys cong: sum.case_cong)
  show ?thesis
  proof (cases "doc_results data")
    case None
    then show ?thesis by (simp add: process_criminal_check_def spec_process_def clean)
  next
    case (Some rs)
    show ?thesis
    proof (cases rs)
      case Nil
      with Some show ?thesis by (simp add: process_criminal_check_def spec_process_def clean)
    next
      case (Cons r rs')
      with Some show ?thesis
        by (simp add: process_criminal_check_def spec_process_def loop finish_results_refines
            del: process_results.simps split: sum.split)
    qed
  qed
qed

subsection \<open>What a returned mapping holds\<close>

lemma emitted_cases_origin:
  "emitted_cases p clock n xs = Inr pcs \<Longrightarrow> pc \<in> set pcs \<Longrightarrow>
   \<exists>now ch cn b. process_charge p now ch cn = Inr (pc, b)"
proof (induction xs arbitrary: n pcs)
  case Nil
  then show ?case by simp
next
  case (Cons x xs)
  obtain cn ch where x: "x = (cn, ch)" by (cases x)
  from Cons.prems(1) x obtain pc0 b0 pcs0 where
    h: "process_charge p (clock n) ch cn = Inr (pc0, b0)"
    and t: "emitted_cases p clock (Suc n) xs = Inr pcs0" and pcs: "pcs = pc0 # pcs0"
    by (auto split: sum.splits prod.splits)
  show ?case
  proof (cases "pc = pc0")
    case True
    with h show ?thesis by blast
  next
    case False
    with Cons.prems(2) pcs have "pc \<in> set pcs0" by simp
    from Cons.IH [OF t this] show ?thesis .
  qed
qed

lemma emitted_cases_nth:
  "emitted_cases p clock n xs = Inr pcs \<Longrightarrow> i < length xs \<Longrightarrow>
   \<exists>b. process_charge p (clock (n + i)) (snd (xs ! i)) (fst (xs ! i)) = Inr (pcs ! i, b)"
proof (induction xs arbitrary: n pcs i)
  case Nil
  then show ?case by simp
next
  case (Cons x xs)
  obtain cn ch where x: "x = (cn, ch)" by (cases x)
  from Cons.prems(1) x obtain pc0 b0 pcs0 where
    h: "process_charge p (clock n) ch cn = Inr (pc0, b0)"
    and t: "emitted_cases p clock (Suc n) xs = Inr pcs0" and pcs: "pcs = pc0 # pcs0"
    by (auto split: sum.splits prod.splits)
  show ?case
  proof (cases i)
    case 0
    with h x pcs show ?thesis by simp
  next
    case (Suc j)
    with Cons.prems(2) have "j < length xs" by simp
    from Cons.IH [OF t this] Suc pcs show ?thesis by simp
  qed
qed

lemma emitted_cases_not_clean:
  assumes "emitted_cases p clock n xs = Inr pcs"
  shows "filter (\<lambda>pc. risk_level pc = CLEAN) pcs = []"
proof -
  have "risk_level pc \<noteq> CLEAN" if "pc \<in> set pcs" for pc
    using emitted_cases_origin [OF assms that] process_charge_level(2) by blast
  then show ?thesis by (simp add: filter_empty_conv)
qed

lemma synthetic_case_fields [simp]:
  "risk_level clean_no_history = CLEAN" "risk_level clean_no_qualifying = CLEAN"
  "risk_score clean_no_history = 0" "risk_score clean_no_qualifying = 0"
  by (simp_all add: clean_no_history_def clean_no_qualifying_def na_case_def)

lemma clean_no_history_buckets:
  "add_cases initial_results [clean_no_history] =
     [(''Ignored'', []), (''Low'', []), (''Medium'', []), (''High'', []),
      (''Clean'', [clean_no_history])]"
  by (simp add: add_cases_initial)

lemma clean_no_qualifying_buckets:
  "add_cases initial_results [clean_no_qualifying] =
     [(''Ignored'', []), (''Low'', []), (''Medium'', []), (''High'', []),
      (''Clean'', [clean_no_qualifying])]"
  by (simp add: add_cases_initial)

lemma process_criminal_check_buckets:
  assumes "process_criminal_check p clock data = Inr res"
  shows "(doc_results data = None \<or> doc_results data = Some []) \<and>
           res = [(''Ignored'', []), (''Low'', []), (''Medium'', []), (''High'', []),
                  (''Clean'', [clean_no_history])]
         \<or> (\<exists>rs pcs. doc_results data = Some rs \<and> rs \<noteq> [] \<and>
              emitted_cases p clock 0 (enabled_charges p rs) = Inr pcs \<and>
              res = [(''Ignored'', filter (\<lambda>pc. risk_level pc = IGNORED) pcs),
                     (''Low'', filter (\<lambda>pc. risk_level pc = LOW) pcs),
                     (''Medium'', filter (\<lambda>pc. risk_level pc = MEDIUM) pcs),
                     (''High'', filter (\<lambda>pc. risk_level pc = HIGH) pcs),
                     (''Clean'', if pcs = [] then [clean_no_qualifying] else [])])"
proof (cases "doc_results data = None \<or> doc_results data = Some []")
  case True
  with assms show ?thesis
    by (auto simp: process_criminal_check_refines spec_process_def clean_no_history_buckets)
next
  case False
  then obtain rs where rs: "doc_results data = Some rs" "rs \<noteq> []" by auto
  with assms obtain pcs where
    e: "emitted_cases p clock 0 (enabled_charges p rs) = Inr pcs"
    and r: "res = add_cases initial_results (if pcs = [] then [clean_no_qualifying] else pcs)"
    by (auto simp: process_criminal_check_refines spec_process_def split: sum.splits)
  have "res = [(''Ignored'', filter (\<lambda>pc. risk_level pc = IGNORED) pcs),
               (''Low'', filter (\<lambda>pc. risk_level pc = LOW) pcs),
               (''Medium'', filter (\<lambda>pc. risk_level pc = MEDIUM) pcs),
               (''High'', filter (\<lambda>pc. risk_level pc = HIGH) pcs),
               (''Clean'', if pcs = [] then [clean_no_qualifying] else [])]"
  proof (cases "pcs = []")
    case True
    with r show ?thesis
      by (simp add: add_cases_initial)
  next
    case False
    with r emitted_cases_not_clean [OF e] show ?thesis by (simp add: add_cases_initial)
  qed
  with rs e show ?thesis by blast
qed

subsection \<open>Runs of the concrete inputs\<close>

lemma init_example: "init_processor example_config example_now = Inr example_processor"
  by code_simp

lemma example_run:
  "process_criminal_check example_processor (fixed_clock example_now) example_document
     = Inr example_buckets"
  by code_simp

lemma ignored_only_run:
  "process_criminal_check example_processor (fixed_clock example_now) ignored_only_document
     = Inr ignored_only_buckets"
  by code_simp

lemma civil_run:
  "process_criminal_check example_processor (fixed_clock example_now) civil_document
     = Inr civil_buckets"
  by code_simp

subsection \<open>Bucket keys and levels\<close>

text \<open>
  Claim C10. In every mapping \<^verbatim>\<open>process_criminal_check\<close> returns, the keys are exactly
  the five strings Ignored, Low, Medium, High and Clean, and every ProcessedCase stored
  under a key has the risk level whose string value is that key.
\<close>

theorem bucket_keys_and_levels:
  assumes "process_criminal_check p clock data = Inr res"
  shows "map fst res = [''Ignored'', ''Low'', ''Medium'', ''High'', ''Clean''] \<and>
         (\<forall>(k, v) \<in> set res. \<forall>pc \<in> set v. RiskLevel_value (risk_level pc) = k)"
  using process_criminal_check_buckets [OF assms]
  by auto

theorem bucket_keys_and_levels_witness:
  "process_criminal_check example_processor (fixed_clock example_now) example_document
     = Inr example_buckets \<and>
   map fst example_buckets = [''Ignored'', ''Low'', ''Medium'', ''High'', ''Clean''] \<and>
   list_all (\<lambda>(k, v). list_all (\<lambda>pc. RiskLevel_value (risk_level pc) = k) v) example_buckets"
  using example_run bucket_keys_and_levels [OF example_run] by (simp add: list_all_iff)

subsection \<open>The synthetic Clean entry\<close>

text \<open>
  Claim C3. \<^verbatim>\<open>process_criminal_check\<close> appends a synthetic Clean ProcessedCase in
  exactly two situations. (a) The document has no \<open>results\<close> key or an empty results
  list: the call returns the mapping with the one entry "No criminal history found" under
  Clean and every other bucket empty. (b) Results exist and the Ignored, Low, Medium and
  High buckets of the returned mapping are all empty: the Clean bucket holds the one
  entry "No records meet the configured criteria"; the call returns that mapping
  whenever the results hold no charge of an enabled record category. In every other
  returned mapping the
  Clean bucket is empty; in particular, when something was Ignored and nothing scored
  into Low, Medium or High, the mapping holds Ignored entries only.
\<close>

theorem synthetic_clean_entry:
  "(doc_results data = None \<or> doc_results data = Some [] \<longrightarrow>
      process_criminal_check p clock data =
        Inr [(''Ignored'', []), (''Low'', []), (''Medium'', []), (''High'', []),
             (''Clean'', [clean_no_history])]) \<and>
   (\<forall>rs. doc_results data = Some rs \<and> rs \<noteq> [] \<and> enabled_charges p rs = [] \<longrightarrow>
      process_criminal_check p clock data =
        Inr [(''Ignored'', []), (''Low'', []), (''Medium'', []), (''High'', []),
             (''Clean'', [clean_no_qualifying])]) \<and>
   (\<forall>res. process_criminal_check p clock data = Inr res \<and>
          \<not> (doc_results data = None \<or> doc_results data = Some []) \<longrightarrow>
      map_of res ''Clean'' =
        Some (if map_of res ''Ignored'' = Some [] \<and> map_of res ''Low'' = Some []
                 \<and> map_of res ''Medium'' = Some [] \<and> map_of res ''High'' = Some []
              then [clean_no_qualifying] else [])) \<and>
   (\<forall>res. process_criminal_check p clock data = Inr res \<and>
          map_of res ''Ignored'' \<noteq> Some [] \<and> map_of res ''Low'' = Some []
            \<and> map_of res ''Medium'' = Some [] \<and> map_of res ''High'' = Some [] \<longrightarrow>
      map_of res ''Clean'' = Some [] \<and>
      (\<forall>(k, v) \<in> set res. \<forall>pc \<in> set v. risk_level pc = IGNORED))"
proof -
  have a: "process_criminal_check p clock data =
        Inr [(''Ignored'', []), (''Low'', []), (''Medium'', []), (''High'', []),
             (''Clean'', [clean_no_history])]"
    if "doc_results data = None \<or> doc_results data = Some []"
    using that
    by (auto simp: process_criminal_check_refines spec_process_def clean_no_history_buckets)
  have b: "map_of res ''Clean'' =
        Some (if map_of res ''Ignored'' = Some [] \<and> map_of res ''Low'' = Some []
                 \<and> map_of res ''Medium'' = Some [] \<and> map_of res ''High'' = Some []
              then [clean_no_qualifying] else [])"
    if h: "process_criminal_check p clock data = Inr res"
      "\<not> (doc_results data = None \<or> doc_results data = Some [])" for res
  proof -
    from h obtain pcs where
      res: "res = [(''Ignored'', filter (\<lambda>pc. risk_level pc = IGNORED) pcs),
                   (''Low'', filter (\<lambda>pc. risk_level pc = LOW) pcs),
                   (''Medium'', filter (\<lambda>pc. risk_level pc = MEDIUM) pcs),
                   (''High'', filter (\<lambda>pc. risk_level pc = HIGH) pcs),
                   (''Clean'', if pcs = [] then [clean_no_qualifying] else [])]"
      and nc: "filter (\<lambda>pc. risk_level pc = CLEAN) pcs = []"
      using process_criminal_check_buckets [of p clock data res] emitted_cases_not_clean
      by blast
    have "pcs = []" if "filter (\<lambda>pc. risk_level pc = IGNORED) pcs = []"
      "filter (\<lambda>pc. risk_level pc = LOW) pcs = []"
      "filter (\<lambda>pc. risk_level pc = MEDIUM) pcs = []"
      "filter (\<lambda>pc. risk_level pc = HIGH) pcs = []"
    proof (cases pcs)
      case Nil
      then show ?thesis .
    next
      case (Cons a list)
      with that nc show ?thesis by (cases "risk_level a") (auto split: if_splits)
    qed
    with res show ?thesis by auto
  qed
  have c: "map_of res ''Clean'' = Some [] \<and>
      (\<forall>(k, v) \<in> set res. \<forall>pc \<in> set v. risk_level pc = IGNORED)"
    if "process_criminal_check p clock data = Inr res"
      "map_of res ''Ignored'' \<noteq> Some []" "map_of res ''Low'' = Some []"
      "map_of res ''Medium'' = Some []" "map_of res ''High'' = Some []" for res
    using process_criminal_check_buckets [OF that(1)] that(2-) by auto
  have d: "process_criminal_check p clock data =
        Inr [(''Ignored'', []), (''Low'', []), (''Medium'', []), (''High'', []),
             (''Clean'', [clean_no_qualifying])]"
    if "doc_results data = Some rs" "rs \<noteq> []" "enabled_charges p rs = []" for rs
    using that
    by (simp add: process_criminal_check_refines spec_process_def clean_no_qualifying_buckets)
  from a b c d show ?thesis by blast
qed

theorem synthetic_clean_entry_witness:
  "process_criminal_check example_processor (fixed_clock example_now) \<lparr>doc_results = None\<rparr>
     = Inr [(''Ignored'', []), (''Low'', []), (''Medium'', []), (''High'', []),
            (''Clean'', [clean_no_history])] \<and>
   doc_results civil_document = Some civil_results \<and> civil_results \<noteq> [] \<and>
   enabled_charges example_processor civil_results = [] \<and>
   process_criminal_check example_processor (fixed_clock example_now) civil_document
     = Inr [(''Ignored'', []), (''Low'', []), (''Medium'', []), (''High'', []),
            (''Clean'', [clean_no_qualifying])] \<and>
   process_criminal_check example_processor (fixed_clock example_now) civil_document
     = Inr civil_buckets \<and>
   map_of civil_buckets ''Clean'' = Some [clean_no_qualifying] \<and>
   process_criminal_check example_processor (fixed_clock example_now) ignored_only_document
     = Inr ignored_only_buckets \<and>
   map_of ignored_only_buckets ''Clean'' = Some [] \<and>
   list_all (\<lambda>(k, v). list_all (\<lambda>pc. risk_level pc = IGNORED) v) ignored_only_buckets"
proof -
  note a = synthetic_clean_entry
    [of "\<lparr>doc_results = None\<rparr>" example_processor "fixed_clock example_now"]
  note b = synthetic_clean_entry [of civil_document example_processor "fixed_clock example_now"]
  note c = synthetic_clean_entry
    [of ignored_only_document example_processor "fixed_clock example_now"]
  have nb: "\<not> (doc_results civil_document = None \<or> doc_results civil_document = Some [])"
    by (simp add: civil_document_def civil_results_def)
  have cv: "doc_results civil_document = Some civil_results" "civil_results \<noteq> []"
    by (simp_all add: civil_document_def civil_results_def)
  have ce: "enabled_charges example_processor civil_results = []"
    by code_simp
  have ig: "map_of ignored_only_buckets ''Ignored'' \<noteq> Some []"
    "map_of ignored_only_buckets ''Low'' = Some []"
    "map_of ignored_only_buckets ''Medium'' = Some []"
    "map_of ignored_only_buckets ''High'' = Some []"
    "map_of civil_buckets ''Ignored'' = Some []"
    "map_of civil_buckets ''Low'' = Some []"
    "map_of civil_buckets ''Medium'' = Some []"
    "map_of civil_buckets ''High'' = Some []"
    by (simp_all add: ignored_only_buckets_def civil_buckets_def)
  from a have "process_criminal_check example_processor (fixed_clock example_now)
      \<lparr>doc_results = None\<rparr>
     = Inr [(''Ignored'', []), (''Low'', []), (''Medium'', []), (''High'', []),
            (''Clean'', [clean_no_history])]"
    by simp
  moreover from b civil_run nb ig
  have "map_of civil_buckets ''Clean'' = Some [clean_no_qualifying]"
    by simp
  moreover from b cv ce
  have "process_criminal_check example_processor (fixed_clock example_now) civil_document
     = Inr [(''Ignored'', []), (''Low'', []), (''Medium'', []), (''High'', []),
            (''Clean'', [clean_no_qualifying])]"
    by blast
  moreover from c ignored_only_run ig
  have "map_of ignored_only_buckets ''Clean'' = Some [] \<and>
     (\<forall>(k, v) \<in> set ignored_only_buckets. \<forall>pc \<in> set v. risk_level pc = IGNORED)"
    by blast
  ultimately show ?thesis using civil_run ignored_only_run cv ce by (simp add: list_all_iff)
qed

subsection \<open>One ProcessedCase per charge of an enabled record category\<close>

lemma filter_levels_length:
  assumes "filter (\<lambda>pc. risk_level pc = CLEAN) pcs = []"
  shows "length (filter (\<lambda>pc. risk_level pc = IGNORED) pcs)
       + length (filter (\<lambda>pc. risk_level pc = LOW) pcs)
       + length (filter (\<lambda>pc. risk_level pc = MEDIUM) pcs)
       + length (filter (\<lambda>pc. risk_level pc = HIGH) pcs) = length pcs"
  using assms
proof (induction pcs)
  case Nil
  then show ?case by simp
next
  case (Cons a pcs)
  then show ?case by (cases "risk_level a") (auto split: if_splits)
qed

lemma negative_run:
  "process_criminal_check negative_weight_processor (fixed_clock example_now) speeding_document
     = Inr negative_buckets"
  by code_simp

text \<open>
  Claim C7, as stated: every charge appearing in the document yields exactly one
  ProcessedCase across the returned buckets. It fails for a charge of a result group whose
  record category is not enabled: the loop skips the group. The document below holds one
  charge, in the category "Civil", which the example configuration disables; the returned
  mapping holds the synthetic Clean entry and nothing else.
\<close>

theorem disabled_category_charge_dropped:
  "doc_results civil_document = Some civil_results \<and>
   all_charges civil_results = [(''CV-1'', speeding_charge)] \<and>
   process_criminal_check example_processor (fixed_clock example_now) civil_document
     = Inr civil_buckets \<and>
   concat (map snd civil_buckets) = [clean_no_qualifying]"
proof -
  have "doc_results civil_document = Some civil_results"
    by (simp add: civil_document_def)
  moreover have "all_charges civil_results = [(''CV-1'', speeding_charge)]"
    by (simp add: all_charges_def civil_results_def charges_of_result_def get_default_def)
  moreover have "concat (map snd civil_buckets) = [clean_no_qualifying]"
    by (simp add: civil_buckets_def)
  ultimately show ?thesis using civil_run by simp
qed

text \<open>
  Claim C7, amended: whenever \<^verbatim>\<open>process_criminal_check\<close> returns, every charge of an
  enabled record category yields exactly one ProcessedCase, and the charges of the other
  record categories yield none. There is a list of ProcessedCases, one per charge of the
  enabled result groups in document order, the \<open>i\<close>-th being what \<^verbatim>\<open>_process_charge\<close>
  returns for the \<open>i\<close>-th such charge and its case number; none of them has level Clean;
  the Ignored, Low, Medium and High buckets are the sublists of that list of their own
  level, so their sizes add up to the number of those charges.
\<close>

theorem enabled_charge_cases:
  assumes "process_criminal_check p clock data = Inr res"
  shows "\<exists>pcs.
     length pcs = length (enabled_charges p (get_default (doc_results data) [])) \<and>
     (\<forall>i<length pcs. \<exists>b.
        process_charge p (clock i)
          (snd (enabled_charges p (get_default (doc_results data) []) ! i))
          (fst (enabled_charges p (get_default (doc_results data) []) ! i))
        = Inr (pcs ! i, b)) \<and>
     (\<forall>pc \<in> set pcs. risk_level pc \<noteq> CLEAN) \<and>
     map_of res ''Ignored'' = Some (filter (\<lambda>pc. risk_level pc = IGNORED) pcs) \<and>
     map_of res ''Low'' = Some (filter (\<lambda>pc. risk_level pc = LOW) pcs) \<and>
     map_of res ''Medium'' = Some (filter (\<lambda>pc. risk_level pc = MEDIUM) pcs) \<and>
     map_of res ''High'' = Some (filter (\<lambda>pc. risk_level pc = HIGH) pcs) \<and>
     length (filter (\<lambda>pc. risk_level pc = IGNORED) pcs)
       + length (filter (\<lambda>pc. risk_level pc = LOW) pcs)
       + length (filter (\<lambda>pc. risk_level pc = MEDIUM) pcs)
       + length (filter (\<lambda>pc. risk_level pc = HIGH) pcs)
       = length (enabled_charges p (get_default (doc_results data) []))"
proof -
  let ?ecs = "enabled_charges p (get_default (doc_results data) [])"
  from process_criminal_check_buckets [OF assms]
  obtain pcs where e: "emitted_cases p clock 0 ?ecs = Inr pcs"
    and r: "map_of res ''Ignored'' = Some (filter (\<lambda>pc. risk_level pc = IGNORED) pcs)"
      "map_of res ''Low'' = Some (filter (\<lambda>pc. risk_level pc = LOW) pcs)"
      "map_of res ''Medium'' = Some (filter (\<lambda>pc. risk_level pc = MEDIUM) pcs)"
      "map_of res ''High'' = Some (filter (\<lambda>pc. risk_level pc = HIGH) pcs)"
  proof (elim disjE conjE exE)
    assume "doc_results data = None"
      and "res = [(''Ignored'', []), (''Low'', []), (''Medium'', []), (''High'', []),
                  (''Clean'', [clean_no_history])]"
    then show ?thesis
      using that [of "[]"] by (simp add: get_default_def enabled_charges_def)
  next
    assume "doc_results data = Some []"
      and "res = [(''Ignored'', []), (''Low'', []), (''Medium'', []), (''High'', []),
                  (''Clean'', [clean_no_history])]"
    then show ?thesis
      using that [of "[]"] by (simp add: get_default_def enabled_charges_def)
  next
    fix rs pcs
    assume "doc_results data = Some rs" "emitted_cases p clock 0 (enabled_charges p rs) = Inr pcs"
      and "res = [(''Ignored'', filter (\<lambda>pc. risk_level pc = IGNORED) pcs),
                     (''Low'', filter (\<lambda>pc. risk_level pc = LOW) pcs),
                     (''Medium'', filter (\<lambda>pc. risk_level pc = MEDIUM) pcs),
                     (''High'', filter (\<lambda>pc. risk_level pc = HIGH) pcs),
                     (''Clean'', if pcs = [] then [clean_no_qualifying] else [])]"
    then show ?thesis
      using that [of pcs] by (simp add: get_default_def)
  qed
  have len: "length pcs = length ?ecs" using emitted_cases_length [OF e] .
  have nth: "\<forall>i<length pcs. \<exists>b.
        process_charge p (clock i) (snd (?ecs ! i)) (fst (?ecs ! i)) = Inr (pcs ! i, b)"
    using emitted_cases_nth [OF e] len by simp
  have nc: "filter (\<lambda>pc. risk_level pc = CLEAN) pcs = []"
    using emitted_cases_not_clean [OF e] .
  then have nc': "\<forall>pc \<in> set pcs. risk_level pc \<noteq> CLEAN"
    by (simp add: filter_empty_conv)
  from len nth nc' r filter_levels_length [OF nc] show ?thesis
    by (intro exI [of _ pcs]) simp
qed

theorem enabled_charge_cases_witness:
  "process_criminal_check example_processor (fixed_clock example_now) example_document
     = Inr example_buckets \<and>
   (\<exists>pcs.
     length pcs = length (enabled_charges example_processor
                            (get_default (doc_results example_document) [])) \<and>
     (\<forall>i<length pcs. \<exists>b.
        process_charge example_processor (fixed_clock example_now i)
          (snd (enabled_charges example_processor
                  (get_default (doc_results example_document) []) ! i))
          (fst (enabled_charges example_processor
                  (get_default (doc_results example_document) []) ! i))
        = Inr (pcs ! i, b)) \<and>
     (\<forall>pc \<in> set pcs. risk_level pc \<noteq> CLEAN) \<and>
     map_of example_buckets ''Ignored'' = Some (filter (\<lambda>pc. risk_level pc = IGNORED) pcs) \<and>
     map_of example_buckets ''Low'' = Some (filter (\<lambda>pc. risk_level pc = LOW) pcs) \<and>
     map_of example_buckets ''Medium'' = Some (filter (\<lambda>pc. risk_level pc = MEDIUM) pcs) \<and>
     map_of example_buckets ''High'' = Some (filter (\<lambda>pc. risk_level pc = HIGH) pcs) \<and>
     length (filter (\<lambda>pc. risk_level pc = IGNORED) pcs)
       + length (filter (\<lambda>pc. risk_level pc = LOW) pcs)
       + length (filter (\<lambda>pc. risk_level pc = MEDIUM) pcs)
       + length (filter (\<lambda>pc. risk_level pc = HIGH) pcs)
       = length (enabled_charges example_processor
                   (get_default (doc_results example_document) [])))"
  using example_run enabled_charge_cases [OF example_run] by (rule conjI)

subsection \<open>Scores are rounded, and non-negative when the severity weights are\<close>

lemma round_half_even_of_int [simp]: "round_half_even (of_int n) = n"
  by (simp add: round_half_even_def)

lemma round_half_even_nonneg: "0 \<le> x \<Longrightarrow> 0 \<le> round_half_even x"
  by (auto simp: round_half_even_def Let_def)

lemma round2_idem [simp]: "round2 (round2 x) = round2 x"
  by (simp add: round2_def)

lemma round2_zero [simp]: "round2 0 = 0"
  using round_half_even_of_int [of 0] by (simp add: round2_def)

lemma round2_nonneg: "0 \<le> x \<Longrightarrow> 0 \<le> round2 x"
  by (simp add: round2_def round_half_even_nonneg)

lemma recency_factor_pos: "0 < recency_factor y"
  by (simp add: recency_factor_def)

lemma impact_multiplier_nonneg: "0 \<le> get_default (map_of impact_multipliers s) 1"
  by (simp add: impact_multipliers_def get_default_def)

lemma risk_base_score_nonneg: "0 \<le> get_default (map_of risk_base_scores s) 15"
  by (simp add: risk_base_scores_def get_default_def)

lemma get_charge_type_weight_nonneg:
  assumes "\<forall>ct \<in> set (charge_classification_types (config p)). 0 \<le> ct_severity_weight ct"
  shows "0 \<le> get_charge_type_weight p t"
proof (cases "find (\<lambda>ct. lower (ct_input_key ct) = lower t) (charge_classification_types (config p))")
  case None
  then show ?thesis by (simp add: get_charge_type_weight_def)
next
  case (Some ct)
  then have "ct \<in> set (charge_classification_types (config p))"
    by (auto simp: find_Some_iff)
  with assms Some show ?thesis by (simp add: get_charge_type_weight_def)
qed

lemma calculate_risk_score_rounded:
  "calculate_risk_score p now ch od = Inr s \<Longrightarrow> round2 s = s"
  by (auto simp: calculate_risk_score_def Let_def split: sum.splits)

lemma calculate_risk_score_nonneg:
  assumes "\<forall>ct \<in> set (charge_classification_types (config p)). 0 \<le> ct_severity_weight ct"
    and "calculate_risk_score p now ch od = Inr s"
  shows "0 \<le> s"
proof -
  from assms(2) obtain b d r where
    s: "s = round2 (of_int b * (of_int (get_charge_type_weight p (get_default (ch_type ch) ''unknown'')) / 2) * d * r)"
    and b: "0 \<le> b" and d: "0 \<le> d" and r: "0 < r"
  proof (cases "charge_disposition ch")
    case (Inl e)
    with assms(2) show ?thesis by (simp add: calculate_risk_score_def Let_def)
  next
    case (Inr disp)
    let ?b = "if lower (get_default (ch_category ch) ''Unclassified'') = ''unclassified'' then 35
              else get_default (map_of risk_base_scores
                     (get_csv_risk_score (get_default (ch_category ch) ''Unclassified'')
                        (get_default (ch_subcategory ch) []))) 15"
    let ?d = "get_default (map_of impact_multipliers (get_disposition_risk_impact p disp)) 1"
    let ?r = "case parse_date od of None \<Rightarrow> 1
              | Some dt \<Rightarrow> recency_factor (of_int ((now - dt) div us_per_day) / 365)"
    have "0 \<le> ?b" using risk_base_score_nonneg by simp
    moreover have "0 \<le> ?d" by (rule impact_multiplier_nonneg)
    moreover have "0 < ?r" by (simp add: recency_factor_pos split: option.split)
    moreover from assms(2) Inr have "s = round2 (of_int ?b
        * (of_int (get_charge_type_weight p (get_default (ch_type ch) ''unknown'')) / 2) * ?d * ?r)"
      by (auto simp: calculate_risk_score_def Let_def split: option.splits)
    ultimately show ?thesis using that by blast
  qed
  have "0 \<le> get_charge_type_weight p (get_default (ch_type ch) ''unknown'')"
    by (rule get_charge_type_weight_nonneg [OF assms(1)])
  with b d r have "0 \<le> of_int b * (of_int (get_charge_type_weight p (get_default (ch_type ch) ''unknown'')) / 2) * d * r"
    by simp
  with s show ?thesis by (simp add: round2_nonneg)
qed

lemma process_charge_score:
  assumes "process_charge p now ch cn = Inr (pc, b)"
  shows "round2 (risk_score pc) = risk_score pc"
    and "risk_level pc = IGNORED \<Longrightarrow> risk_score pc = 0"
    and "\<forall>ct \<in> set (charge_classification_types (config p)). 0 \<le> ct_severity_weight ct
           \<Longrightarrow> 0 \<le> risk_score pc"
proof -
  have ni: "determine_risk_level p s c \<noteq> IGNORED" for s c
    using determine_risk_level_range [of p s c] by auto
  from assms show "round2 (risk_score pc) = risk_score pc"
    by (auto simp: process_charge_def ignored_case_def Let_def calculate_risk_score_rounded
        split: sum.splits if_splits)
  from assms ni show "risk_level pc = IGNORED \<Longrightarrow> risk_score pc = 0"
    by (auto simp: process_charge_def ignored_case_def Let_def split: sum.splits if_splits)
  from assms show "0 \<le> risk_score pc"
    if "\<forall>ct \<in> set (charge_classification_types (config p)). 0 \<le> ct_severity_weight ct"
    using calculate_risk_score_nonneg [OF that]
    by (auto simp: process_charge_def ignored_case_def Let_def split: sum.splits if_splits)
qed

lemma returned_case_origin:
  assumes "process_criminal_check p clock data = Inr res"
    and "(k, v) \<in> set res" and "pc \<in> set v"
  shows "pc = clean_no_history \<or> pc = clean_no_qualifying
         \<or> (\<exists>now ch cn b. process_charge p now ch cn = Inr (pc, b))"
proof -
  from process_criminal_check_buckets [OF assms(1)] show ?thesis
  proof (elim disjE conjE exE)
    fix rs pcs
    assume e: "emitted_cases p clock 0 (enabled_charges p rs) = Inr pcs"
      and res: "res = [(''Ignored'', filter (\<lambda>pc. risk_level pc = IGNORED) pcs),
                     (''Low'', filter (\<lambda>pc. risk_level pc = LOW) pcs),
                     (''Medium'', filter (\<lambda>pc. risk_level pc = MEDIUM) pcs),
                     (''High'', filter (\<lambda>pc. risk_level pc = HIGH) pcs),
                     (''Clean'', if pcs = [] then [clean_no_qualifying] else [])]"
    from res assms(2,3) have "pc = clean_no_qualifying \<or> pc \<in> set pcs"
      by (auto split: if_splits)
    with emitted_cases_origin [OF e] show ?thesis by blast
  qed (use assms(2,3) in auto)
qed

text \<open>
  Claim C9, as stated: every ProcessedCase returned has a non-negative risk score, under
  every configuration. It fails under a configuration whose severity weight is negative:
  with weight \<open>-1\<close> for petty offenses, the speeding charge scores
  \<open>round (5 * (-1/2) * 1.5 * 1.5, 2) = -5.62\<close> and is returned in the Low bucket.
\<close>

theorem negative_weight_negative_score:
  "process_criminal_check negative_weight_processor (fixed_clock example_now) speeding_document
     = Inr negative_buckets \<and>
   map_of negative_buckets ''Low'' = Some [negative_low] \<and>
   risk_score negative_low = - (281 / 50) \<and>
   risk_score negative_low < 0"
  using negative_run by (simp add: negative_buckets_def negative_low_def)

text \<open>
  Claim C9, amended: every ProcessedCase \<^verbatim>\<open>process_criminal_check\<close> returns, in every
  bucket and under every configuration, has a risk score equal to its own rounding to two
  decimals, and a score of exactly 0 when its level is Ignored; under every configuration
  whose charge-type severity weights are all non-negative, every returned score is
  non-negative.
\<close>

theorem risk_score_rounded_nonneg:
  assumes "process_criminal_check p clock data = Inr res"
  shows "(\<forall>(k, v) \<in> set res. \<forall>pc \<in> set v.
            round2 (risk_score pc) = risk_score pc \<and>
            (risk_level pc = IGNORED \<longrightarrow> risk_score pc = 0)) \<and>
         ((\<forall>ct \<in> set (charge_classification_types (config p)). 0 \<le> ct_severity_weight ct) \<longrightarrow>
            (\<forall>(k, v) \<in> set res. \<forall>pc \<in> set v. 0 \<le> risk_score pc))"
proof -
  have "round2 (risk_score pc) = risk_score pc \<and>
        (risk_level pc = IGNORED \<longrightarrow> risk_score pc = 0) \<and>
        ((\<forall>ct \<in> set (charge_classification_types (config p)). 0 \<le> ct_severity_weight ct) \<longrightarrow>
           0 \<le> risk_score pc)"
    if "(k, v) \<in> set res" "pc \<in> set v" for k v pc
    using returned_case_origin [OF assms that] process_charge_score [of p _ _ _ pc]
    by auto
  then show ?thesis by blast
qed

theorem risk_score_rounded_nonneg_witness:
  "process_criminal_check example_processor (fixed_clock example_now) example_document
     = Inr example_buckets \<and>
   list_all (\<lambda>ct. 0 \<le> ct_severity_weight ct)
     (charge_classification_types (config example_processor)) \<and>
   list_all (\<lambda>(k, v). list_all (\<lambda>pc. round2 (risk_score pc) = risk_score pc
                                      \<and> 0 \<le> risk_score pc) v)
     example_buckets \<and>
   map_of example_buckets ''Ignored'' = Some [example_ignored] \<and>
   risk_level example_ignored = IGNORED \<and> risk_score example_ignored = 0"
proof -
  have w: "\<forall>ct \<in> set (charge_classification_types (config example_processor)).
             0 \<le> ct_severity_weight ct"
    by (simp add: example_processor_def example_config_def)
  have i: "map_of example_buckets ''Ignored'' = Some [example_ignored]"
    "risk_level example_ignored = IGNORED"
    "(''Ignored'', [example_ignored]) \<in> set example_buckets"
    by (simp_all add: example_buckets_def example_ignored_def)
  from risk_score_rounded_nonneg [OF example_run] i(2,3)
  have "risk_score example_ignored = 0" by fastforce
  with risk_score_rounded_nonneg [OF example_run] w example_run i show ?thesis
    by (auto simp: list_all_iff)
qed

subsection \<open>When the processor raises\<close>

text \<open>
  The only exception of the model is the \<^verbatim>\<open>IndexError\<close> of indexing an empty
  \<open>dispositions\<close> list. \<^verbatim>\<open>process_criminal_check\<close> returns exactly when no charge of an
  enabled record category carries such a list.
\<close>

lemma charge_disposition_Inr_iff:
  "(\<exists>d. charge_disposition ch = Inr d) \<longleftrightarrow> ch_dispositions ch \<noteq> Some []"
  by (cases "ch_dispositions ch")
     (auto simp: charge_disposition_def get_default_def split: list.splits)

lemma charge_disposition_error:
  "charge_disposition ch = Inl e \<longleftrightarrow> ch_dispositions ch = Some [] \<and> e = IndexError"
  by (cases "ch_dispositions ch")
     (auto simp: charge_disposition_def get_default_def split: list.splits)



lemma process_criminal_check_only_IndexError:
  "process_criminal_check p clock data = Inl e \<Longrightarrow> e = IndexError"
proof -
  have pc: "process_charge p now ch cn = Inl e \<Longrightarrow> e = IndexError" for now ch cn e
    by (auto simp: process_charge_def calculate_risk_score_def Let_def charge_disposition_error
        split: sum.splits if_splits)
  have em: "emitted_cases p clock n xs = Inl e \<Longrightarrow> e = IndexError" for n xs e
    by (induction xs arbitrary: n) (auto split: sum.splits prod.splits dest: pc)
  assume "process_criminal_check p clock data = Inl e"
  then show ?thesis
    by (auto simp: process_criminal_check_refines spec_process_def
        split: option.splits if_splits sum.splits dest: em)
qed

text \<open>
  \<^verbatim>\<open>_process_charge\<close> and \<^verbatim>\<open>_calculate_risk_score\<close> index the \<open>dispositions\<close> list at 0
  before any check, so both raise \<^verbatim>\<open>IndexError\<close> on every charge whose list is present
  and empty, whatever the processor, and the exception leaves
  \<^verbatim>\<open>process_criminal_check\<close>, which has no handler.
\<close>

lemma empty_dispositions_raise:
  "process_charge p now (ch\<lparr>ch_dispositions := Some []\<rparr>) cn = Inl IndexError \<and>
   calculate_risk_score p now (ch\<lparr>ch_dispositions := Some []\<rparr>) od = Inl IndexError \<and>
   process_criminal_check example_processor (fixed_clock example_now) empty_dispositions_document
     = Inl IndexError"
proof -
  have "process_criminal_check example_processor (fixed_clock example_now)
          empty_dispositions_document = Inl IndexError"
    by code_simp
  then show ?thesis
    by (simp add: process_charge_def calculate_risk_score_def charge_disposition_def
        get_default_def Let_def)
qed

subsection \<open>The eligibility checks\<close>

lemma is_within_lookback_iff:
  "is_within_lookback p od \<longleftrightarrow> (\<exists>dt. parse_date od = Some dt \<and> cutoff_date p \<le> dt)"
  by (simp add: is_within_lookback_def split: option.split)

lemma is_charge_type_enabled_iff:
  "is_charge_type_enabled p t \<longleftrightarrow>
     (\<exists>ct. find (\<lambda>ct. lower (ct_input_key ct) = lower t)
              (charge_classification_types (config p)) = Some ct \<and> ct_enabled ct)"
  by (simp add: is_charge_type_enabled_def split: option.split)

lemma is_disposition_enabled_iff:
  "is_disposition_enabled p d \<longleftrightarrow>
     (\<exists>r. find (\<lambda>r. lower (dp_input_key r) = lower d)
              (disposition_filters (config p)) = Some r \<and> dp_enabled r)"
  by (simp add: is_disposition_enabled_def split: option.split)

lemma process_charge_checks_in_order:
  assumes "ch_dispositions ch \<noteq> Some []"
  defines "od \<equiv> get_default (ch_offense_date ch) []"
    and "ctype \<equiv> get_default (ch_type ch) ''unknown''"
  shows "\<exists>pc b disp. process_charge p now ch cn = Inr (pc, b) \<and>
           charge_disposition ch = Inr disp \<and>
           (if \<not> is_within_lookback p od then
              b = False \<and> risk_level pc = IGNORED \<and> risk_score pc = 0 \<and>
              reason pc = ''Outside '' @ str_int (lookback_years p) @ ''-year lookback period''
            else if \<not> is_charge_type_enabled p ctype then
              b = False \<and> risk_level pc = IGNORED \<and> risk_score pc = 0 \<and>
              reason pc = ''Charge type '' @ [CHR 0x27] @ ctype @ [CHR 0x27]
                            @ '' not enabled in configuration''
            else if \<not> is_disposition_enabled p disp then
              b = False \<and> risk_level pc = IGNORED \<and> risk_score pc = 0 \<and>
              reason pc = ''Disposition '' @ [CHR 0x27] @ disp @ [CHR 0x27]
                            @ '' not enabled in configuration''
            else b = True \<and> risk_level pc \<noteq> IGNORED \<and> reason pc = ''Processed successfully'')"
proof -
  from assms(1) obtain disp where d: "charge_disposition ch = Inr disp"
    using charge_disposition_Inr_iff by blast
  have ni: "determine_risk_level p s c \<noteq> IGNORED" for s c
    using determine_risk_level_range [of p s c] by auto
  from d ni show ?thesis
    by (auto simp: process_charge_def calculate_risk_score_def ignored_case_def Let_def
        od_def ctype_def)
qed

text \<open>
  Claim C2 says that every charge reaching \<^verbatim>\<open>_process_charge\<close> goes through the
  lookback, charge-type and disposition checks in that order, the first failing check
  giving an Ignored ProcessedCase with score 0 and its reason, and that every charge
  whose offense date is before the cutoff date yields such a case. The lemma above proves
  this for every charge whose \<open>dispositions\<close> list is absent or non-empty. A charge
  whose list is present and empty does not reach the first check: although its offense
  date parses to an instant before the cutoff date, so that the lookback check would
  fail, \<^verbatim>\<open>_process_charge\<close> raises \<^verbatim>\<open>IndexError\<close> and yields no ProcessedCase.
\<close>

theorem stale_charge_raises:
  assumes "parse_date (get_default (ch_offense_date ch) []) = Some dt"
    and "dt < cutoff_date p"
    and "ch_dispositions ch = Some []"
  shows "\<not> is_within_lookback p (get_default (ch_offense_date ch) []) \<and>
         process_charge p now ch cn = Inl IndexError"
  using assms
  by (simp add: is_within_lookback_def process_charge_def charge_disposition_def
      get_default_def Let_def)

text \<open>
  The charge with the offense date 2010-01-01 and an empty \<open>dispositions\<close> list, under
  the example processor, whose cutoff date is 2016-06-02T12:00:00.
\<close>

theorem stale_charge_raises_witness:
  "ch_offense_date stale_charge = Some ''20100101'' \<and>
   parse_date (get_default (ch_offense_date stale_charge) []) = Some 63397900800000000 \<and>
   cutoff_date example_processor = 63600465600000000 \<and>
   ch_dispositions stale_charge = Some [] \<and>
   \<not> is_within_lookback example_processor ''20100101'' \<and>
   process_charge example_processor example_now stale_charge ''2022TR030504 A''
     = Inl IndexError"
proof -
  have a: "parse_date (get_default (ch_offense_date stale_charge) []) = Some 63397900800000000"
    by code_simp
  have b: "cutoff_date example_processor = 63600465600000000"
    by code_simp
  have c: "ch_dispositions stale_charge = Some []"
    "ch_offense_date stale_charge = Some ''20100101''"
    by (simp_all add: stale_charge_def)
  from b have "63397900800000000 < cutoff_date example_processor" by simp
  from stale_charge_raises [OF a this c(1)] a b c show ?thesis
    by (simp add: get_default_def)
qed

subsection \<open>The risk score\<close>

text \<open>
  The scorer of the source agrees with the formula of the specification. The fallback of
  \<^verbatim>\<open>_get_csv_risk_score\<close> to the list of high-risk categories is never taken, because
  each of them has an entry of its own in the table, and the table yields no tier other
  than High, Med and Low.
\<close>

lemma find_filter_conv:
  "find P xs = (case filter P xs of [] \<Rightarrow> None | x # _ \<Rightarrow> Some x)"
  by (induction xs) simp_all

lemma lower_unclassified:
  "lower ''Unclassified'' = ''unclassified''" "lower ''unclassified'' = ''unclassified''"
  by code_simp+

lemma risk_mapping_tiers:
  "map_of risk_mapping k = Some t \<Longrightarrow> t = ''High'' \<or> t = ''Med'' \<or> t = ''Low''"
proof -
  assume "map_of risk_mapping k = Some t"
  then have "(k, t) \<in> set risk_mapping" by (rule map_of_SomeD)
  then show ?thesis by (auto simp: risk_mapping_def)
qed

lemma high_risk_categories_mapped:
  "c \<in> set high_risk_categories \<Longrightarrow> map_of risk_mapping (c, []) \<noteq> None"
  by (auto simp: high_risk_categories_def risk_mapping_def)

lemma get_csv_risk_score_spec: "get_csv_risk_score cat subcat = spec_tier cat subcat"
  using high_risk_categories_mapped [of "lower cat"]
  by (auto simp: get_csv_risk_score_def spec_tier_def split: option.splits)

lemma spec_tier_range:
  "spec_tier cat subcat = ''High'' \<or> spec_tier cat subcat = ''Med'' \<or> spec_tier cat subcat = ''Low''"
  by (auto simp: spec_tier_def split: option.splits dest: risk_mapping_tiers)

lemma base_score_spec:
  "(if lower cat = ''unclassified'' then 35
    else get_default (map_of risk_base_scores (get_csv_risk_score cat subcat)) 15)
   = spec_base_score cat subcat"
  using spec_tier_range [of cat subcat]
  by (auto simp: get_csv_risk_score_spec spec_base_score_def risk_base_scores_def
      get_default_def)

lemma spec_base_score_lower:
  assumes "lower cat = lower cat'"
  shows "spec_base_score cat subcat = spec_base_score cat' subcat"
  unfolding spec_base_score_def spec_tier_def assms by (rule refl)

lemma get_charge_type_weight_spec:
  "get_charge_type_weight p ctype = spec_severity_weight (config p) ctype"
  by (simp add: get_charge_type_weight_def spec_severity_weight_def find_filter_conv
      split: list.split)

lemma impact_multiplier_spec:
  "get_default (map_of impact_multipliers impact) 1 = spec_impact_multiplier impact"
  by (simp add: impact_multipliers_def spec_impact_multiplier_def get_default_def)

lemma spec_impact_low: "spec_impact_multiplier ''low'' = 1"
  by (simp add: spec_impact_multiplier_def)

lemma disposition_multiplier_spec:
  "get_default (map_of impact_multipliers (get_disposition_risk_impact p disp)) 1
     = spec_disposition_multiplier (config p) disp"
  by (simp add: impact_multiplier_spec get_disposition_risk_impact_def
      spec_disposition_multiplier_def find_filter_conv spec_impact_low split: list.split)

lemma recency_factor_spec:
  "recency_factor (of_int ((now - dt) div us_per_day) / 365) = spec_recency_multiplier now dt"
proof -
  have "(of_int n :: rat) / 365 \<le> 1 \<longleftrightarrow> n \<le> 365"
    "(of_int n :: rat) / 365 \<le> 3 \<longleftrightarrow> n \<le> 3 * 365"
    "(of_int n :: rat) / 365 \<le> 5 \<longleftrightarrow> n \<le> 5 * 365" for n :: int
    by (simp_all add: divide_le_eq)
  then show ?thesis
    by (simp add: recency_factor_def spec_recency_multiplier_def Let_def)
qed

lemma calculate_risk_score_spec:
  assumes "charge_disposition ch = Inr disp"
  shows "calculate_risk_score p now ch od =
     Inr (spec_risk_score (config p) now (get_default (ch_category ch) ''unclassified'')
            (get_default (ch_subcategory ch) []) (get_default (ch_type ch) ''unknown'')
            disp od)"
proof -
  let ?cat = "get_default (ch_category ch) ''Unclassified''"
  let ?cat' = "get_default (ch_category ch) ''unclassified''"
  have "lower ?cat = lower ?cat'"
    by (cases "ch_category ch") (simp_all add: get_default_def lower_unclassified)
  then have b: "spec_base_score ?cat s = spec_base_score ?cat' s" for s
    by (rule spec_base_score_lower)
  show ?thesis
    unfolding calculate_risk_score_def Let_def base_score_spec get_charge_type_weight_spec
      assms sum.case disposition_multiplier_spec recency_factor_spec b spec_risk_score_def
    by (simp split: option.split)
qed

text \<open>
  Claim C1. For every charge that passes the eligibility filter, the risk score is
  \<open>round (baseScore * (severityWeight / 2) * dispositionMultiplier * recencyMultiplier, 2)\<close>:
  the base score is 30, 15, 5 or 10 for the tier High, Med, Low or Unscored, looked up
  without regard to case in the fixed table (an entry for the subcategory first, then the
  entry of the category alone, then Med), and 35 when the category is "unclassified";
  the severity weight is the configured one of the charge type (1 if unmatched); the
  disposition multiplier is 1.5, 1.2, 1.0 or 0.5 for the configured impact high, medium,
  low or none (1.0 for any other impact); the recency multiplier is 1.5 up to one year of
  age, 1.2 up to three, 1.0 up to five and 0.8 beyond, and is left out when the offense
  date does not parse. The second conjunct is about \<^verbatim>\<open>_calculate_risk_score\<close> itself, at
  any instant and for any date string, parsable or not.
\<close>

theorem risk_score_formula:
  assumes "process_charge p now ch cn = Inr (pc, True)"
  shows "risk_score pc =
           spec_risk_score (config p) now (category pc) (subcategory pc) (charge_type pc)
             (disposition pc) (offense_date pc) \<and>
         (\<forall>t od. calculate_risk_score p t ch od =
           Inr (spec_risk_score (config p) t (category pc) (subcategory pc) (charge_type pc)
                  (disposition pc) od))"
proof -
  from assms obtain disp where d: "charge_disposition ch = Inr disp"
    using process_charge_Inr_iff by blast
  note c = calculate_risk_score_spec [OF d]
  from assms d show ?thesis
    by (auto simp: process_charge_def Let_def c split: if_splits)
qed

lemma speeding_run:
  "process_charge example_processor example_now speeding_charge ''2022TR030504 A''
     = Inr (example_low, True)"
  by code_simp

theorem risk_score_formula_witness:
  "process_charge example_processor example_now speeding_charge ''2022TR030504 A''
     = Inr (example_low, True) \<and>
   risk_score example_low = 281 / 50 \<and>
   spec_risk_score example_config example_now ''Vehicles & Traffic'' ''Speeding''
     ''petty_offense'' ''Conviction'' ''20221201'' = 281 / 50 \<and>
   calculate_risk_score example_processor example_now speeding_charge ''not a date''
     = Inr (spec_risk_score example_config example_now ''Vehicles & Traffic'' ''Speeding''
              ''petty_offense'' ''Conviction'' ''not a date'')"
proof -
  have c: "config example_processor = example_config"
    by (simp add: example_processor_def)
  from risk_score_formula [OF speeding_run] speeding_run show ?thesis
    by (simp add: example_low_def c)
qed

subsection \<open>Charge anomalies\<close>









end
